theory Spec2Isabelle
  imports Main
begin

section \<open>The reservation controller of Parque Berlin (controlador.c)\<close>

text \<open>
  The controller keeps its whole state in global variables.  The embedding gathers them in
  one record that every operation takes and returns.

  Numbers of persons are C \<open>int\<close> values whose sums can leave the 32-bit range: the
  party size has no lower bound and the capacity no upper bound in the source.  Every sum
  of a counter and a party size is therefore written with its wrap-around, \<open>int32 (c + n)\<close>,
  the two's complement value that the compiled program computes.  Hours are validated
  before they enter any arithmetic (\<open>validarHora\<close> on the requested hour,
  \<open>procesarArgumentos\<close> on the configured hours, and the clock stops one past the end
  hour), so sums of hours are written without wrap-around.

  The array \<open>reservas[1000]\<close> with its fill count \<open>numReservas\<close> is a list of at
  most \<open>MAX_RESERVAS\<close> records that grows at its end.  The source writes
  \<open>reservas[numReservas]\<close> with no test of the bound: a commit into a full store is the
  error \<open>ReservasLlenas\<close>, after which the program has no defined behaviour.  The array
  \<open>ocupacionPorHora\<close> is a list that is read and written through checked accessors; an
  index outside the list surfaces as the error \<open>OcupacionFueraDeRango\<close>.  A result
  \<open>Inr\<close> therefore says that every array access of the operation was within bounds.

  Each operation is one atomic step; the interleaving of the clock thread and the
  listener thread is a list of such steps.
\<close>

subsection \<open>Constants\<close>

definition MAX_AGENTES :: nat where
  "MAX_AGENTES = 50"

definition MAX_NOMBRE :: nat where
  "MAX_NOMBRE = 128"

definition HORAS_MIN :: int where
  "HORAS_MIN = 7"

definition HORAS_MAX :: int where
  "HORAS_MAX = 19"

definition MAX_HORAS :: nat where
  "MAX_HORAS = nat (HORAS_MAX - HORAS_MIN + 1)"

definition DURACION_RESERVA :: int where
  "DURACION_RESERVA = 2"

text \<open>The length of the array \<open>reservas\<close>, a literal in the source.\<close>

definition MAX_RESERVAS :: nat where
  "MAX_RESERVAS = 1000"

subsection \<open>The C type int\<close>

text \<open>
  The value that a 32-bit two's complement \<open>int\<close> holds after an arithmetic result
  \<open>x\<close>, and the range in which that value is \<open>x\<close> itself.
\<close>

definition int32 :: "int \<Rightarrow> int" where
  "int32 x = (x + 2 ^ 31) mod 2 ^ 32 - 2 ^ 31"

definition enInt32 :: "int \<Rightarrow> bool" where
  "enInt32 x \<longleftrightarrow> - (2 ^ 31) \<le> x \<and> x < 2 ^ 31"

text \<open>The two ways in which an operation leaves its arrays.\<close>

datatype error = OcupacionFueraDeRango | ReservasLlenas

subsection \<open>Messages, responses and stored records\<close>

text \<open>
  \<open>MSG_OTRO\<close> stands for every value of the enumeration's integer that is none of
  the three named ones; \<open>procesarMensaje\<close> sends it to its \<open>default\<close> branch.
\<close>

datatype TipoMensaje = MSG_REGISTRO | MSG_SOLICITUD_RESERVA | MSG_FIN_AGENTE | MSG_OTRO

datatype TipoRespuesta =
  RESP_HORA_ACTUAL | RESP_RESERVA_OK | RESP_RESERVA_REPROG | RESP_RESERVA_NEGADA | RESP_FIN_DIA

record MensajeAgente =
  tipo :: TipoMensaje
  nombreAgente :: string
  pipeRespuesta :: string
  nombreFamilia :: string
  horaSolicitada :: int
  numPersonas :: int

text \<open>
  The response's text field \<open>mensaje\<close> is console output and is left out.  The field
  \<open>horaAsignada\<close> is written only on approval and rescheduling; \<open>None\<close> is the field
  the code never assigned.
\<close>

record RespuestaControlador =
  tipo_resp :: TipoRespuesta
  horaAsignada :: "int option"
  horaActual_resp :: int

record Reserva =
  nombreFamilia_res :: string
  nombreAgente_res :: string
  horaInicio :: int
  horaFin :: int
  numPersonas_res :: int
  activa :: bool

record AgenteInfo =
  nombre :: string
  pipeRespuesta_ag :: string
  activo :: bool

record estado =
  horaInicial :: int
  horaFinal :: int
  aforoMaximo :: int
  horaActual :: int
  ocupacionPorHora :: "int list"
  reservas :: "Reserva list"
  agentesRegistrados :: "AgenteInfo list"
  solicitudesNegadas :: int
  solicitudesAceptadas :: int
  solicitudesReprogramadas :: int

subsection \<open>Utility functions\<close>

definition validarHora :: "int \<Rightarrow> bool" where
  "validarHora hora \<longleftrightarrow> hora \<ge> HORAS_MIN \<and> hora \<le> HORAS_MAX"

definition indiceHora :: "int \<Rightarrow> int" where
  "indiceHora hora = hora - HORAS_MIN"

text \<open>\<open>strncpy(dst, src, MAX_NOMBRE - 1)\<close> into a zeroed field keeps at most 127 characters.\<close>

definition strncpy :: "string \<Rightarrow> nat \<Rightarrow> string" where
  "strncpy src n = take n src"

text \<open>
  Checked read and checked in-place addition on the occupancy array; the addition is
  the \<open>+=\<close> of the source on a C \<open>int\<close>.
\<close>

definition leerOcupacion :: "int list \<Rightarrow> int \<Rightarrow> int option" where
  "leerOcupacion occ i =
     (if 0 \<le> i \<and> i < int (length occ) then Some (occ ! nat i) else None)"

definition sumarOcupacion :: "int list \<Rightarrow> int \<Rightarrow> int \<Rightarrow> int list option" where
  "sumarOcupacion occ i n =
     (if 0 \<le> i \<and> i < int (length occ) then Some (occ[nat i := int32 (occ ! nat i + n)])
      else None)"

subsection \<open>Start-up\<close>

text \<open>The range checks of \<open>procesarArgumentos\<close>; a configuration that fails them exits.\<close>

definition procesarArgumentos :: "int \<Rightarrow> int \<Rightarrow> int \<Rightarrow> int \<Rightarrow> bool" where
  "procesarArgumentos hi hf seg aforo \<longleftrightarrow>
     validarHora hi \<and> validarHora hf \<and> hi < hf \<and> 0 < seg \<and> 0 < aforo"

definition inicializarServidor :: "int \<Rightarrow> int \<Rightarrow> int \<Rightarrow> estado" where
  "inicializarServidor hi hf aforo =
     \<lparr> horaInicial = hi, horaFinal = hf, aforoMaximo = aforo, horaActual = hi,
       ocupacionPorHora = replicate MAX_HORAS 0, reservas = [], agentesRegistrados = [],
       solicitudesNegadas = 0, solicitudesAceptadas = 0, solicitudesReprogramadas = 0 \<rparr>"

subsection \<open>Availability check\<close>

text \<open>
  The loop of \<open>verificarDisponibilidad\<close>, from the loop variable \<open>h\<close> on: it stops at
  the end of the window or at the first hour that \<open>validarHora\<close> rejects.
\<close>

function verificar_desde :: "estado \<Rightarrow> int \<Rightarrow> int \<Rightarrow> int \<Rightarrow> bool option" where
  "verificar_desde s hora n h =
     (if h < hora + DURACION_RESERVA \<and> validarHora h then
        (case leerOcupacion (ocupacionPorHora s) (indiceHora h) of
           None \<Rightarrow> None
         | Some c \<Rightarrow>
             if int32 (c + n) > aforoMaximo s then Some False
             else verificar_desde s hora n (h + 1))
      else Some True)"
  by pat_completeness auto
termination
  by (relation "measure (\<lambda>(s, hora, n, h). nat (hora + DURACION_RESERVA - h))") auto

declare verificar_desde.simps [simp del]

definition verificarDisponibilidad :: "estado \<Rightarrow> int \<Rightarrow> int \<Rightarrow> bool option" where
  "verificarDisponibilidad s hora n = verificar_desde s hora n hora"

subsection \<open>Search for an alternative hour\<close>

text \<open>The inner loop over \<open>offset\<close>: the value of \<open>disponible\<close> when it ends.\<close>

function disponible_desde :: "estado \<Rightarrow> int \<Rightarrow> int \<Rightarrow> int \<Rightarrow> bool option" where
  "disponible_desde s n h offset =
     (if offset < DURACION_RESERVA then
        (if \<not> validarHora (h + offset) then Some False
         else
           (case leerOcupacion (ocupacionPorHora s) (indiceHora (h + offset)) of
              None \<Rightarrow> None
            | Some c \<Rightarrow>
                if int32 (c + n) > aforoMaximo s then Some False
                else disponible_desde s n h (offset + 1)))
      else Some True)"
  by pat_completeness auto
termination
  by (relation "measure (\<lambda>(s, n, h, offset). nat (DURACION_RESERVA - offset))") auto

declare disponible_desde.simps [simp del]

text \<open>The outer loop over the candidate hour \<open>h\<close>; \<open>Some None\<close> is the return value 0.\<close>

function buscar_desde :: "estado \<Rightarrow> int \<Rightarrow> int \<Rightarrow> int option option" where
  "buscar_desde s n h =
     (if h \<le> horaFinal s - DURACION_RESERVA + 1 then
        (case disponible_desde s n h 0 of
           None \<Rightarrow> None
         | Some True \<Rightarrow> Some (Some h)
         | Some False \<Rightarrow> buscar_desde s n (h + 1))
      else Some None)"
  by pat_completeness auto
termination
  by (relation "measure (\<lambda>(s, n, h). nat (horaFinal s - DURACION_RESERVA + 2 - h))") auto

declare buscar_desde.simps [simp del]

definition buscarHoraAlternativa :: "estado \<Rightarrow> int \<Rightarrow> int option option" where
  "buscarHoraAlternativa s n = buscar_desde s n (horaActual s)"

subsection \<open>Committing a reservation\<close>

text \<open>The loop that updates the occupancy, written three times in the source.\<close>

function actualizar_desde :: "int list \<Rightarrow> int \<Rightarrow> int \<Rightarrow> int \<Rightarrow> int list option" where
  "actualizar_desde occ hora n h =
     (if h < hora + DURACION_RESERVA \<and> validarHora h then
        (case sumarOcupacion occ (indiceHora h) n of
           None \<Rightarrow> None
         | Some occ' \<Rightarrow> actualizar_desde occ' hora n (h + 1))
      else Some occ)"
  by pat_completeness auto
termination
  by (relation "measure (\<lambda>(occ, hora, n, h). nat (hora + DURACION_RESERVA - h))") auto

declare actualizar_desde.simps [simp del]

definition actualizarOcupacion :: "int list \<Rightarrow> int \<Rightarrow> int \<Rightarrow> int list option" where
  "actualizarOcupacion occ hora n = actualizar_desde occ hora n hora"

text \<open>The record written into \<open>reservas[numReservas]\<close>.\<close>

definition nuevaReserva :: "MensajeAgente \<Rightarrow> int \<Rightarrow> Reserva" where
  "nuevaReserva msg hora =
     \<lparr> nombreFamilia_res = strncpy (nombreFamilia msg) (MAX_NOMBRE - 1),
       nombreAgente_res = strncpy (nombreAgente msg) (MAX_NOMBRE - 1),
       horaInicio = hora,
       horaFin = hora + DURACION_RESERVA - 1,
       numPersonas_res = numPersonas msg,
       activa = False \<rparr>"

text \<open>
  The block under the lock \<open>mutexReservas\<close> that stores the record and charges the
  hours; the source repeats it in the approval branch and in both rescheduling branches.
  The record is written first, at index \<open>numReservas\<close>, which is outside the array
  when the store already holds \<open>MAX_RESERVAS\<close> records.
\<close>

definition realizarReserva :: "MensajeAgente \<Rightarrow> int \<Rightarrow> estado \<Rightarrow> error + estado" where
  "realizarReserva msg hora s =
     (if MAX_RESERVAS \<le> length (reservas s) then Inl ReservasLlenas
      else
        (case actualizarOcupacion (ocupacionPorHora s) hora (numPersonas msg) of
           None \<Rightarrow> Inl OcupacionFueraDeRango
         | Some occ \<Rightarrow>
             Inr (s\<lparr> reservas := reservas s @ [nuevaReserva msg hora],
                     ocupacionPorHora := occ \<rparr>)))"

subsection \<open>Handling one reservation request\<close>

definition negada :: "estado \<Rightarrow> RespuestaControlador \<times> estado" where
  "negada s =
     (\<lparr> tipo_resp = RESP_RESERVA_NEGADA, horaAsignada = None, horaActual_resp = horaActual s \<rparr>,
      s\<lparr> solicitudesNegadas := solicitudesNegadas s + 1 \<rparr>)"

text \<open>
  The rescheduling attempt shared by the late branch and the no-availability branch:
  search, then commit at the hour found, or deny.
\<close>

definition reprogramar ::
  "MensajeAgente \<Rightarrow> estado \<Rightarrow> error + (RespuestaControlador \<times> estado)" where
  "reprogramar msg s =
     (case buscarHoraAlternativa s (numPersonas msg) of
        None \<Rightarrow> Inl OcupacionFueraDeRango
      | Some (Some horaAlternativa) \<Rightarrow>
          (case realizarReserva msg horaAlternativa
                  (s\<lparr> solicitudesReprogramadas := solicitudesReprogramadas s + 1 \<rparr>) of
             Inl e \<Rightarrow> Inl e
           | Inr s' \<Rightarrow>
               Inr (\<lparr> tipo_resp = RESP_RESERVA_REPROG, horaAsignada = Some horaAlternativa,
                      horaActual_resp = horaActual s \<rparr>, s'))
      | Some None \<Rightarrow> Inr (negada s))"

definition procesarSolicitudReserva ::
  "MensajeAgente \<Rightarrow> estado \<Rightarrow> error + (RespuestaControlador \<times> estado)" where
  "procesarSolicitudReserva msg s =
     (if \<not> validarHora (horaSolicitada msg) then Inr (negada s)
      else if numPersonas msg > aforoMaximo s then Inr (negada s)
      else if horaSolicitada msg < horaActual s then reprogramar msg s
      else if horaSolicitada msg > horaFinal s then Inr (negada s)
      else
        (case verificarDisponibilidad s (horaSolicitada msg) (numPersonas msg) of
           None \<Rightarrow> Inl OcupacionFueraDeRango
         | Some True \<Rightarrow>
             (case realizarReserva msg (horaSolicitada msg)
                     (s\<lparr> solicitudesAceptadas := solicitudesAceptadas s + 1 \<rparr>) of
                Inl e \<Rightarrow> Inl e
              | Inr s' \<Rightarrow>
                  Inr (\<lparr> tipo_resp = RESP_RESERVA_OK,
                         horaAsignada = Some (horaSolicitada msg),
                         horaActual_resp = horaActual s \<rparr>, s'))
         | Some False \<Rightarrow> reprogramar msg s))"

subsection \<open>Registration and dispatch\<close>

definition registrarAgente :: "MensajeAgente \<Rightarrow> estado \<Rightarrow> RespuestaControlador \<times> estado" where
  "registrarAgente msg s =
     (\<lparr> tipo_resp = RESP_HORA_ACTUAL, horaAsignada = None, horaActual_resp = horaActual s \<rparr>,
      if length (agentesRegistrados s) < MAX_AGENTES then
        s\<lparr> agentesRegistrados := agentesRegistrados s @
             [\<lparr> nombre = strncpy (nombreAgente msg) (MAX_NOMBRE - 1),
                pipeRespuesta_ag = strncpy (pipeRespuesta msg) (MAX_NOMBRE - 1),
                activo = True \<rparr>] \<rparr>
      else s)"

text \<open>The result is the list of responses sent (none or one) and the new state.\<close>

definition procesarMensaje ::
  "MensajeAgente \<Rightarrow> estado \<Rightarrow> error + (RespuestaControlador list \<times> estado)" where
  "procesarMensaje msg s =
     (case tipo msg of
        MSG_REGISTRO \<Rightarrow> (case registrarAgente msg s of (r, s') \<Rightarrow> Inr ([r], s'))
      | MSG_SOLICITUD_RESERVA \<Rightarrow>
          (case procesarSolicitudReserva msg s of
             Inl e \<Rightarrow> Inl e
           | Inr (r, s') \<Rightarrow> Inr ([r], s'))
      | MSG_FIN_AGENTE \<Rightarrow> Inr ([], s)
      | MSG_OTRO \<Rightarrow> Inr ([], s))"

subsection \<open>The virtual clock\<close>

definition activar :: "int \<Rightarrow> Reserva \<Rightarrow> Reserva" where
  "activar h r = (if horaInicio r = h \<and> \<not> activa r then r\<lparr> activa := True \<rparr> else r)"

definition desactivar :: "int \<Rightarrow> Reserva \<Rightarrow> Reserva" where
  "desactivar h r = (if horaFin r < h \<and> activa r then r\<lparr> activa := False \<rparr> else r)"

text \<open>
  Both loops of \<open>avanzarHora\<close> visit every stored record once and touch only the record
  they visit, so each is a \<open>map\<close> over the store, the activation pass first.
\<close>

definition avanzarHora :: "estado \<Rightarrow> estado" where
  "avanzarHora s =
     (let h = horaActual s + 1
      in s\<lparr> horaActual := h,
            reservas := map (desactivar h) (map (activar h) (reservas s)) \<rparr>)"

text \<open>
  One turn of the loop of \<open>hiloReloj\<close>: the thread ticks while the current hour has not
  passed the end hour, and has ended otherwise.
\<close>

definition hiloReloj_paso :: "estado \<Rightarrow> estado" where
  "hiloReloj_paso s = (if horaActual s \<le> horaFinal s then avanzarHora s else s)"

subsection \<open>Runs\<close>

datatype evento = Mensaje MensajeAgente | Tic

text \<open>A run stops at the first step that leaves an array, as nothing is defined after it.\<close>

fun paso :: "evento \<Rightarrow> estado \<Rightarrow> error + estado" where
  "paso (Mensaje msg) s =
     (case procesarMensaje msg s of Inl e \<Rightarrow> Inl e | Inr (rs, s') \<Rightarrow> Inr s')"
| "paso Tic s = Inr (hiloReloj_paso s)"

fun ejecutar :: "evento list \<Rightarrow> estado \<Rightarrow> error + estado" where
  "ejecutar [] s = Inr s"
| "ejecutar (e # es) s = (case paso e s of Inl err \<Rightarrow> Inl err | Inr s' \<Rightarrow> ejecutar es s')"

text \<open>The counter of hour \<open>h\<close>, for an hour of the operating window.\<close>

definition contador :: "estado \<Rightarrow> int \<Rightarrow> int" where
  "contador s h = ocupacionPorHora s ! nat (indiceHora h)"

subsection \<open>Availability of a candidate hour\<close>

text \<open>
  What the inner loop of the search decides about a candidate start hour: every hour
  of its window is within the operating range, and the 32-bit sum of its counter and the
  party size is at most the maximum capacity.
\<close>

definition candidatoDisponible :: "estado \<Rightarrow> int \<Rightarrow> int \<Rightarrow> bool" where
  "candidatoDisponible s n h \<longleftrightarrow>
     (\<forall>k \<in> {h ..< h + DURACION_RESERVA}.
        validarHora k \<and> int32 (contador s k + n) \<le> aforoMaximo s)"

text \<open>
  The specification's notion, in its words: a candidate is valid when every hour of its
  window is within the operating range and has \<open>counter[h] + party_size \<le> max capacity\<close>.
\<close>

definition candidatoValido :: "estado \<Rightarrow> int \<Rightarrow> int \<Rightarrow> bool" where
  "candidatoValido s n h \<longleftrightarrow>
     (\<forall>k \<in> {h ..< h + DURACION_RESERVA}. validarHora k \<and> contador s k + n \<le> aforoMaximo s)"

text \<open>No sum of a counter and the party size \<open>n\<close> leaves the 32-bit range.\<close>

definition sinDesborde :: "estado \<Rightarrow> int \<Rightarrow> bool" where
  "sinDesborde s n = list_all (\<lambda>c. enInt32 (c + n)) (ocupacionPorHora s)"

text \<open>
  The contract of the search that starts at hour \<open>h\<close>: it never reads outside the
  occupancy array, the hour it returns is the first available candidate from \<open>h\<close> on,
  and it returns none only when no candidate up to the last start hour is available.
\<close>

definition buscar_spec :: "estado \<Rightarrow> int \<Rightarrow> int \<Rightarrow> int option option \<Rightarrow> bool" where
  "buscar_spec s n h r \<longleftrightarrow>
     (case r of
        None \<Rightarrow> False
      | Some None \<Rightarrow>
          (\<forall>k. h \<le> k \<and> k \<le> horaFinal s - DURACION_RESERVA + 1 \<longrightarrow>
               \<not> candidatoDisponible s n k)
      | Some (Some a) \<Rightarrow>
          h \<le> a \<and> a \<le> horaFinal s - DURACION_RESERVA + 1 \<and> candidatoDisponible s n a \<and>
          (\<forall>k. h \<le> k \<and> k < a \<longrightarrow> \<not> candidatoDisponible s n k))"

text \<open>
  The effect of a commit at start hour \<open>a\<close> for \<open>n\<close> persons on the counters, and the
  check that precedes it, both on the hours of the window that have a counter.
\<close>

definition cargada :: "estado \<Rightarrow> int \<Rightarrow> int \<Rightarrow> estado \<Rightarrow> bool" where
  "cargada s a n s' \<longleftrightarrow>
     (\<forall>h. validarHora h \<longrightarrow>
        contador s' h =
          (if a \<le> h \<and> h < a + DURACION_RESERVA then int32 (contador s h + n)
           else contador s h))"

definition conCupo :: "estado \<Rightarrow> int \<Rightarrow> int \<Rightarrow> bool" where
  "conCupo s a n \<longleftrightarrow>
     (\<forall>h. a \<le> h \<and> h < a + DURACION_RESERVA \<and> validarHora h \<longrightarrow>
        int32 (contador s h + n) \<le> aforoMaximo s)"

text \<open>
  The number of persons that the stored reservations commit to hour \<open>h\<close>: the sum of
  the party sizes of the records whose window, from start hour to end hour, covers it.
\<close>

definition personasEn :: "Reserva list \<Rightarrow> int \<Rightarrow> int" where
  "personasEn rs h =
     sum_list (map (\<lambda>r. if horaInicio r \<le> h \<and> h \<le> horaFin r then numPersonas_res r else 0) rs)"

subsection \<open>Example states and requests\<close>

text \<open>A reservation request of the agent \<open>agente1\<close>.\<close>

definition solicitud :: "string \<Rightarrow> int \<Rightarrow> int \<Rightarrow> MensajeAgente" where
  "solicitud familia hora n =
     \<lparr> tipo = MSG_SOLICITUD_RESERVA, nombreAgente = ''agente1'', pipeRespuesta = ''pipe1'',
       nombreFamilia = familia, horaSolicitada = hora, numPersonas = n \<rparr>"

text \<open>The park of the specification's scenarios: open from 7 to 19, capacity 100.\<close>

definition parque :: estado where
  "parque = inicializarServidor 7 19 100"

text \<open>The same park at hour 10, with 50 persons committed to the hours 10 and 11.\<close>

definition parque_tras_A :: estado where
  "parque_tras_A = parque\<lparr> horaActual := 10,
      ocupacionPorHora := [0, 0, 0, 50, 50, 0, 0, 0, 0, 0, 0, 0, 0] \<rparr>"

text \<open>
  The park at hour 12 with 90 persons committed to the hours 12 and 13, and the empty
  park at its last hour.
\<close>

definition parque_tarde :: estado where
  "parque_tarde = parque\<lparr> horaActual := 12,
      ocupacionPorHora := [0, 0, 0, 0, 0, 90, 90, 0, 0, 0, 0, 0, 0] \<rparr>"

definition parque_cierre :: estado where
  "parque_cierre = parque\<lparr> horaActual := 19 \<rparr>"

text \<open>
  A run of the empty park: family A asks for hour 10, three ticks bring the clock to
  hour 10, family B asks for hour 10, one more tick.
\<close>

definition corrida_AB :: "evento list" where
  "corrida_AB =
     [Mensaje (solicitud ''A'' 10 50), Tic, Tic, Tic, Mensaje (solicitud ''B'' 10 60), Tic]"

text \<open>An event that is not a reservation request for a negative number of persons.\<close>

definition sinPersonasNegativas :: "evento \<Rightarrow> bool" where
  "sinPersonasNegativas e =
     (case e of
        Mensaje msg \<Rightarrow> tipo msg = MSG_SOLICITUD_RESERVA \<longrightarrow> 0 \<le> numPersonas msg
      | Tic \<Rightarrow> True)"

text \<open>
  A stored record as the engine writes it: its end hour is its start hour plus the
  duration minus one.
\<close>

definition bienFormada :: "Reserva \<Rightarrow> bool" where
  "bienFormada r \<longleftrightarrow> horaFin r = horaInicio r + DURACION_RESERVA - 1"

text \<open>The park at hour 9, after family A's request for hour 10 was approved at hour 7.\<close>

definition parque_hora9 :: estado where
  "parque_hora9 = parque\<lparr> horaActual := 9,
      ocupacionPorHora := [0, 0, 0, 50, 50, 0, 0, 0, 0, 0, 0, 0, 0],
      reservas := [nuevaReserva (solicitud ''A'' 10 50) 10],
      solicitudesAceptadas := 1 \<rparr>"

text \<open>
  The park with a capacity of two thousand million persons, a value that
  \<open>procesarArgumentos\<close> accepts; the same park at hour 8 after a party of that size was
  approved for hour 8, and at hour 18 after a party of that size was approved for hour 18.
\<close>

definition parque_grande :: estado where
  "parque_grande = inicializarServidor 7 19 2000000000"

definition parque_grande_8 :: estado where
  "parque_grande_8 = parque_grande\<lparr> horaActual := 8,
      ocupacionPorHora := [0, 2000000000, 2000000000, 0, 0, 0, 0, 0, 0, 0, 0, 0, 0],
      reservas := [(nuevaReserva (solicitud ''P'' 8 2000000000) 8)\<lparr> activa := True \<rparr>],
      solicitudesAceptadas := 1 \<rparr>"

definition parque_grande_18 :: estado where
  "parque_grande_18 = parque_grande\<lparr> horaActual := 18,
      ocupacionPorHora := [0, 0, 0, 0, 0, 0, 0, 0, 0, 0, 0, 2000000000, 2000000000],
      reservas := [(nuevaReserva (solicitud ''P'' 18 2000000000) 18)\<lparr> activa := True \<rparr>],
      solicitudesAceptadas := 1 \<rparr>"

text \<open>
  The park of capacity 100 after a request for hour 10 with a party size of minus two
  thousand million was approved.
\<close>

definition parque_deuda :: estado where
  "parque_deuda = parque\<lparr>
      ocupacionPorHora := [0, 0, 0, - 2000000000, - 2000000000, 0, 0, 0, 0, 0, 0, 0, 0],
      reservas := [nuevaReserva (solicitud ''X'' 10 (- 2000000000)) 10],
      solicitudesAceptadas := 1 \<rparr>"

section \<open>Auxiliary facts\<close>

lemmas consts_defs = HORAS_MIN_def HORAS_MAX_def MAX_HORAS_def DURACION_RESERVA_def

lemmas ejemplo_defs = solicitud_def parque_def parque_tras_A_def inicializarServidor_def
  parque_tarde_def parque_cierre_def parque_grande_def parque_grande_8_def
  parque_grande_18_def parque_deuda_def

subsection \<open>32-bit sums\<close>

lemma int32_id: "enInt32 x \<Longrightarrow> int32 x = x"
  by (simp add: int32_def enInt32_def)

lemma enInt32_int32: "enInt32 (int32 x)"
proof -
  have "0 \<le> (x + 2 ^ 31) mod 2 ^ 32" and "(x + 2 ^ 31) mod 2 ^ 32 < (2 ^ 32 :: int)"
    by simp_all
  then show ?thesis
    by (simp add: int32_def enInt32_def)
qed

subsection \<open>The loops, unrolled\<close>

lemma leerOcupacion_valida:
  "length occ = MAX_HORAS \<Longrightarrow> validarHora h \<Longrightarrow>
   leerOcupacion occ (indiceHora h) = Some (occ ! nat (indiceHora h))"
  by (simp add: leerOcupacion_def validarHora_def indiceHora_def consts_defs)

lemma sumarOcupacion_valida:
  "length occ = MAX_HORAS \<Longrightarrow> validarHora h \<Longrightarrow>
   sumarOcupacion occ (indiceHora h) n =
     Some (occ[nat (indiceHora h) := int32 (occ ! nat (indiceHora h) + n)])"
  by (simp add: sumarOcupacion_def validarHora_def indiceHora_def consts_defs)

lemma ventana: "{h ..< h + DURACION_RESERVA} = {h, h + 1}"
  by (auto simp: DURACION_RESERVA_def)

lemma verificar_desde_fin:
  "hora + DURACION_RESERVA \<le> h \<or> \<not> validarHora h \<Longrightarrow> verificar_desde s hora n h = Some True"
  by (subst verificar_desde.simps) auto

lemma verificar_desde_paso:
  "length (ocupacionPorHora s) = MAX_HORAS \<Longrightarrow> h < hora + DURACION_RESERVA \<Longrightarrow> validarHora h \<Longrightarrow>
   verificar_desde s hora n h =
     (if int32 (contador s h + n) > aforoMaximo s then Some False
      else verificar_desde s hora n (h + 1))"
  by (subst verificar_desde.simps) (simp add: leerOcupacion_valida contador_def)

lemma verificarDisponibilidad_eq:
  assumes "length (ocupacionPorHora s) = MAX_HORAS"
  shows "verificarDisponibilidad s hora n =
     Some ((validarHora hora \<longrightarrow> int32 (contador s hora + n) \<le> aforoMaximo s) \<and>
           (validarHora hora \<and> validarHora (hora + 1) \<longrightarrow>
              int32 (contador s (hora + 1) + n) \<le> aforoMaximo s))"
proof (cases "validarHora hora")
  case False
  then show ?thesis
    by (simp add: verificarDisponibilidad_def verificar_desde_fin)
next
  case h0: True
  have fin: "verificar_desde s hora n (hora + 1 + 1) = Some True"
    by (rule verificar_desde_fin) (simp add: DURACION_RESERVA_def)
  have uno: "verificar_desde s hora n (hora + 1) =
      Some (validarHora (hora + 1) \<longrightarrow> int32 (contador s (hora + 1) + n) \<le> aforoMaximo s)"
  proof (cases "validarHora (hora + 1)")
    case True
    then show ?thesis
      using assms fin by (simp add: verificar_desde_paso DURACION_RESERVA_def)
  next
    case False
    then show ?thesis by (simp add: verificar_desde_fin)
  qed
  show ?thesis
    using assms h0 uno
    by (simp add: verificarDisponibilidad_def verificar_desde_paso DURACION_RESERVA_def)
qed

lemma disponible_desde_fin:
  "DURACION_RESERVA \<le> offset \<Longrightarrow> disponible_desde s n h offset = Some True"
  by (subst disponible_desde.simps) simp

lemma disponible_desde_paso:
  "length (ocupacionPorHora s) = MAX_HORAS \<Longrightarrow> offset < DURACION_RESERVA \<Longrightarrow>
   disponible_desde s n h offset =
     (if \<not> validarHora (h + offset) \<or> int32 (contador s (h + offset) + n) > aforoMaximo s
      then Some False
      else disponible_desde s n h (offset + 1))"
  by (subst disponible_desde.simps) (simp add: leerOcupacion_valida contador_def)

lemma candidatoDisponible_iff:
  "candidatoDisponible s n h \<longleftrightarrow>
     validarHora h \<and> int32 (contador s h + n) \<le> aforoMaximo s \<and>
     validarHora (h + 1) \<and> int32 (contador s (h + 1) + n) \<le> aforoMaximo s"
  unfolding candidatoDisponible_def ventana by auto

lemma candidatoValido_iff:
  "candidatoValido s n h \<longleftrightarrow>
     validarHora h \<and> contador s h + n \<le> aforoMaximo s \<and>
     validarHora (h + 1) \<and> contador s (h + 1) + n \<le> aforoMaximo s"
  unfolding candidatoValido_def ventana by auto

lemma disponible_desde_eq:
  assumes "length (ocupacionPorHora s) = MAX_HORAS"
  shows "disponible_desde s n h 0 = Some (candidatoDisponible s n h)"
proof -
  have fin: "disponible_desde s n h (1 + 1) = Some True"
    by (rule disponible_desde_fin) (simp add: DURACION_RESERVA_def)
  have uno: "disponible_desde s n h 1 =
      Some (validarHora (h + 1) \<and> int32 (contador s (h + 1) + n) \<le> aforoMaximo s)"
    using assms fin by (auto simp add: disponible_desde_paso [of s 1] DURACION_RESERVA_def)
  have cero: "disponible_desde s n h 0 =
      Some (validarHora h \<and> int32 (contador s h + n) \<le> aforoMaximo s \<and>
            validarHora (h + 1) \<and> int32 (contador s (h + 1) + n) \<le> aforoMaximo s)"
    using assms uno by (auto simp add: disponible_desde_paso [of s 0] DURACION_RESERVA_def)
  show ?thesis
    unfolding cero candidatoDisponible_iff by simp
qed

lemma actualizar_desde_fin:
  "hora + DURACION_RESERVA \<le> h \<or> \<not> validarHora h \<Longrightarrow> actualizar_desde occ hora n h = Some occ"
  by (subst actualizar_desde.simps) auto

lemma actualizar_desde_paso:
  "length occ = MAX_HORAS \<Longrightarrow> h < hora + DURACION_RESERVA \<Longrightarrow> validarHora h \<Longrightarrow>
   actualizar_desde occ hora n h =
     actualizar_desde (occ[nat (indiceHora h) := int32 (occ ! nat (indiceHora h) + n)])
       hora n (h + 1)"
  by (subst actualizar_desde.simps) (simp add: sumarOcupacion_valida)

lemma actualizarOcupacion_eq:
  assumes "length occ = MAX_HORAS"
  shows "actualizarOcupacion occ hora n =
     Some (if validarHora hora then
             (if validarHora (hora + 1) then
                (occ[nat (indiceHora hora) := int32 (occ ! nat (indiceHora hora) + n)])
                   [nat (indiceHora (hora + 1)) := int32 (occ ! nat (indiceHora (hora + 1)) + n)]
              else occ[nat (indiceHora hora) := int32 (occ ! nat (indiceHora hora) + n)])
           else occ)"
proof (cases "validarHora hora")
  case False
  then show ?thesis
    by (simp add: actualizarOcupacion_def actualizar_desde_fin)
next
  case h0: True
  let ?occ1 = "occ[nat (indiceHora hora) := int32 (occ ! nat (indiceHora hora) + n)]"
  have len1: "length ?occ1 = MAX_HORAS" using assms by simp
  have fin: "\<And>xs. actualizar_desde xs hora n (hora + 1 + 1) = Some xs"
    by (rule actualizar_desde_fin) (simp add: DURACION_RESERVA_def)
  have distintos: "nat (indiceHora (hora + 1)) \<noteq> nat (indiceHora hora)"
    using h0 unfolding indiceHora_def validarHora_def HORAS_MIN_def by arith
  have uno: "actualizar_desde ?occ1 hora n (hora + 1) =
      Some (if validarHora (hora + 1) then
              ?occ1[nat (indiceHora (hora + 1)) := int32 (occ ! nat (indiceHora (hora + 1)) + n)]
            else ?occ1)"
  proof (cases "validarHora (hora + 1)")
    case True
    then show ?thesis
      using len1 fin distintos
      by (simp add: actualizar_desde_paso [OF len1] DURACION_RESERVA_def)
  next
    case False
    then show ?thesis by (simp add: actualizar_desde_fin)
  qed
  show ?thesis
    using assms h0 uno
    by (simp add: actualizarOcupacion_def actualizar_desde_paso DURACION_RESERVA_def)
qed

subsection \<open>The search\<close>

lemma buscar_desde_rec:
  "length (ocupacionPorHora s) = MAX_HORAS \<Longrightarrow>
   buscar_desde s n h =
     (if h \<le> horaFinal s - DURACION_RESERVA + 1 then
        (if candidatoDisponible s n h then Some (Some h) else buscar_desde s n (h + 1))
      else Some None)"
  by (subst buscar_desde.simps) (simp add: disponible_desde_eq)

lemma buscar_desde_spec:
  "length (ocupacionPorHora s) = MAX_HORAS \<Longrightarrow> buscar_spec s n h (buscar_desde s n h)"
proof (induction s n h rule: buscar_desde.induct)
  case (1 s n h)
  note len = "1.prems"
  show ?case
  proof (cases "h \<le> horaFinal s - DURACION_RESERVA + 1")
    case False
    then show ?thesis
      using len by (auto simp add: buscar_desde_rec [of s n h] buscar_spec_def)
  next
    case dentro: True
    show ?thesis
    proof (cases "candidatoDisponible s n h")
      case True
      have "buscar_desde s n h = Some (Some h)"
        using len dentro True by (simp add: buscar_desde_rec [of s n h])
      moreover have "buscar_spec s n h (Some (Some h))"
        using dentro True by (auto simp add: buscar_spec_def)
      ultimately show ?thesis by simp
    next
      case no: False
      have d: "disponible_desde s n h 0 = Some False"
        using len no by (simp add: disponible_desde_eq)
      have ih: "buscar_spec s n (h + 1) (buscar_desde s n (h + 1))"
        using "1.IH" [OF dentro d] len by simp
      have paso: "buscar_desde s n h = buscar_desde s n (h + 1)"
        using len dentro no by (simp add: buscar_desde_rec [of s n h])
      have sube: "\<And>k. h \<le> k \<Longrightarrow> candidatoDisponible s n k \<Longrightarrow> h + 1 \<le> k"
      proof -
        fix k assume "h \<le> k" and c: "candidatoDisponible s n k"
        from c no have "k \<noteq> h" by auto
        with \<open>h \<le> k\<close> show "h + 1 \<le> k" by simp
      qed
      show ?thesis
      proof (cases "buscar_desde s n (h + 1)")
        case None
        with ih show ?thesis by (simp add: buscar_spec_def)
      next
        case (Some r)
        show ?thesis
        proof (cases r)
          case None
          with Some ih
          have "\<forall>k. h + 1 \<le> k \<and> k \<le> horaFinal s - DURACION_RESERVA + 1 \<longrightarrow>
                  \<not> candidatoDisponible s n k"
            by (simp add: buscar_spec_def)
          with sube
          have "\<forall>k. h \<le> k \<and> k \<le> horaFinal s - DURACION_RESERVA + 1 \<longrightarrow>
                  \<not> candidatoDisponible s n k"
            by blast
          with Some None show ?thesis
            unfolding paso by (simp add: buscar_spec_def)
        next
          case (Some a)
          with \<open>buscar_desde s n (h + 1) = Some r\<close> ih
          have a: "h + 1 \<le> a" "a \<le> horaFinal s - DURACION_RESERVA + 1" "candidatoDisponible s n a"
            and antes: "\<forall>k. h + 1 \<le> k \<and> k < a \<longrightarrow> \<not> candidatoDisponible s n k"
            by (simp_all add: buscar_spec_def)
          from antes sube
          have "\<forall>k. h \<le> k \<and> k < a \<longrightarrow> \<not> candidatoDisponible s n k"
            by blast
          moreover from a have "h \<le> a" by simp
          ultimately show ?thesis
            unfolding paso using a Some \<open>buscar_desde s n (h + 1) = Some r\<close>
            by (simp add: buscar_spec_def)
        qed
      qed
    qed
  qed
qed

subsection \<open>The commit\<close>

lemma indice_inyectivo:
  "validarHora h \<Longrightarrow> validarHora k \<Longrightarrow> nat (indiceHora h) = nat (indiceHora k) \<longleftrightarrow> h = k"
  unfolding indiceHora_def validarHora_def HORAS_MIN_def by arith

lemma indice_menor:
  "validarHora h \<Longrightarrow> nat (indiceHora h) < MAX_HORAS"
  unfolding indiceHora_def validarHora_def consts_defs by arith

lemma actualizarOcupacion_efecto:
  assumes len: "length occ = MAX_HORAS" and v: "validarHora hora"
  obtains occ' where "actualizarOcupacion occ hora n = Some occ'"
    and "length occ' = MAX_HORAS"
    and "\<And>h. validarHora h \<Longrightarrow>
           occ' ! nat (indiceHora h) =
             (if hora \<le> h \<and> h < hora + DURACION_RESERVA
              then int32 (occ ! nat (indiceHora h) + n)
              else occ ! nat (indiceHora h))"
proof (cases "validarHora (hora + 1)")
  case v1: True
  let ?occ' = "(occ[nat (indiceHora hora) := int32 (occ ! nat (indiceHora hora) + n)])
                   [nat (indiceHora (hora + 1)) := int32 (occ ! nat (indiceHora (hora + 1)) + n)]"
  have "actualizarOcupacion occ hora n = Some ?occ'"
    using len v v1 by (simp add: actualizarOcupacion_eq)
  moreover have "length ?occ' = MAX_HORAS" using len by simp
  moreover have "occ' ! nat (indiceHora h) =
             (if hora \<le> h \<and> h < hora + DURACION_RESERVA
              then int32 (occ ! nat (indiceHora h) + n)
              else occ ! nat (indiceHora h))" if "validarHora h" and "occ' = ?occ'" for h occ'
  proof -
    have i: "nat (indiceHora h) < length occ" using that len by (simp add: indice_menor)
    have i0: "nat (indiceHora hora) < length occ" using v len by (simp add: indice_menor)
    have e0: "nat (indiceHora hora) = nat (indiceHora h) \<longleftrightarrow> hora = h"
      using v that by (simp add: indice_inyectivo)
    have e1: "nat (indiceHora (hora + 1)) = nat (indiceHora h) \<longleftrightarrow> hora + 1 = h"
      using v1 that by (simp add: indice_inyectivo)
    have w: "hora \<le> h \<and> h < hora + DURACION_RESERVA \<longleftrightarrow> h = hora \<or> h = hora + 1"
      by (auto simp: DURACION_RESERVA_def)
    show ?thesis
      unfolding w \<open>occ' = ?occ'\<close> using i i0 e0 e1
      by (auto simp: nth_list_update)
  qed
  ultimately show ?thesis using that by blast
next
  case v1: False
  let ?occ' = "occ[nat (indiceHora hora) := int32 (occ ! nat (indiceHora hora) + n)]"
  have "actualizarOcupacion occ hora n = Some ?occ'"
    using len v v1 by (simp add: actualizarOcupacion_eq)
  moreover have "length ?occ' = MAX_HORAS" using len by simp
  moreover have "occ' ! nat (indiceHora h) =
             (if hora \<le> h \<and> h < hora + DURACION_RESERVA
              then int32 (occ ! nat (indiceHora h) + n)
              else occ ! nat (indiceHora h))" if "validarHora h" and "occ' = ?occ'" for h occ'
  proof -
    have i: "nat (indiceHora h) < length occ" using that len by (simp add: indice_menor)
    have e0: "nat (indiceHora hora) = nat (indiceHora h) \<longleftrightarrow> hora = h"
      using v that by (simp add: indice_inyectivo)
    have w: "hora \<le> h \<and> h < hora + DURACION_RESERVA \<longleftrightarrow> h = hora"
      using v v1 that by (auto simp: DURACION_RESERVA_def validarHora_def)
    show ?thesis
      unfolding w \<open>occ' = ?occ'\<close> using i e0
      by (auto simp: nth_list_update)
  qed
  ultimately show ?thesis using that by blast
qed


lemma contador_campos [simp]:
  "contador (s\<lparr> solicitudesReprogramadas := x \<rparr>) h = contador s h"
  "contador (s\<lparr> solicitudesAceptadas := x \<rparr>) h = contador s h"
  "contador (s\<lparr> solicitudesNegadas := x \<rparr>) h = contador s h"
  "contador (s\<lparr> agentesRegistrados := y \<rparr>) h = contador s h"
  "contador (s\<lparr> horaActual := z \<rparr>) h = contador s h"
  "contador (s\<lparr> reservas := w \<rparr>) h = contador s h"
  by (simp_all add: contador_def)

lemma candidatoDisponible_campos [simp]:
  "candidatoDisponible (s\<lparr> solicitudesReprogramadas := x \<rparr>) n h = candidatoDisponible s n h"
  "candidatoDisponible (s\<lparr> solicitudesAceptadas := x \<rparr>) n h = candidatoDisponible s n h"
  by (simp_all add: candidatoDisponible_def)

lemma realizarReserva_llena:
  "MAX_RESERVAS \<le> length (reservas s) \<Longrightarrow> realizarReserva msg hora s = Inl ReservasLlenas"
  by (simp add: realizarReserva_def)

lemma realizarReserva_sin_fuera:
  "length (ocupacionPorHora s) = MAX_HORAS \<Longrightarrow>
   realizarReserva msg hora s \<noteq> Inl OcupacionFueraDeRango"
  by (simp add: realizarReserva_def actualizarOcupacion_eq)

lemma realizarReserva_Inr:
  assumes "realizarReserva msg hora s = Inr s'"
  shows "length (reservas s) < MAX_RESERVAS"
    and "reservas s' = reservas s @ [nuevaReserva msg hora]"
    and "horaActual s' = horaActual s" and "horaFinal s' = horaFinal s"
    and "horaInicial s' = horaInicial s" and "aforoMaximo s' = aforoMaximo s"
    and "agentesRegistrados s' = agentesRegistrados s"
    and "solicitudesNegadas s' = solicitudesNegadas s"
    and "solicitudesAceptadas s' = solicitudesAceptadas s"
    and "solicitudesReprogramadas s' = solicitudesReprogramadas s"
  using assms by (auto simp: realizarReserva_def split: if_splits option.splits)

lemma realizarReserva_efecto:
  assumes len: "length (ocupacionPorHora s) = MAX_HORAS" and v: "validarHora hora"
    and cabe: "length (reservas s) < MAX_RESERVAS"
  obtains s' where "realizarReserva msg hora s = Inr s'"
    and "length (ocupacionPorHora s') = MAX_HORAS"
    and "\<And>h. validarHora h \<Longrightarrow>
           contador s' h =
             (if hora \<le> h \<and> h < hora + DURACION_RESERVA
              then int32 (contador s h + numPersonas msg)
              else contador s h)"
proof -
  from actualizarOcupacion_efecto [OF len v, of "numPersonas msg"]
  obtain occ' where a: "actualizarOcupacion (ocupacionPorHora s) hora (numPersonas msg) = Some occ'"
    and l: "length occ' = MAX_HORAS"
    and c: "\<And>h. validarHora h \<Longrightarrow>
           occ' ! nat (indiceHora h) =
             (if hora \<le> h \<and> h < hora + DURACION_RESERVA
              then int32 (ocupacionPorHora s ! nat (indiceHora h) + numPersonas msg)
              else ocupacionPorHora s ! nat (indiceHora h))"
    by blast
  let ?s' = "s\<lparr> reservas := reservas s @ [nuevaReserva msg hora], ocupacionPorHora := occ' \<rparr>"
  have "realizarReserva msg hora s = Inr ?s'"
    using a cabe by (simp add: realizarReserva_def)
  moreover have "length (ocupacionPorHora ?s') = MAX_HORAS" using l by simp
  moreover have "\<And>h. validarHora h \<Longrightarrow>
           contador ?s' h =
             (if hora \<le> h \<and> h < hora + DURACION_RESERVA
              then int32 (contador s h + numPersonas msg)
              else contador s h)"
    using c by (simp add: contador_def)
  ultimately show ?thesis using that by blast
qed

lemma realizarReserva_contador:
  assumes len: "length (ocupacionPorHora s) = MAX_HORAS" and v: "validarHora hora"
    and r: "realizarReserva msg hora s = Inr s'"
  shows "length (ocupacionPorHora s') = MAX_HORAS"
    and "validarHora h \<Longrightarrow>
           contador s' h =
             (if hora \<le> h \<and> h < hora + DURACION_RESERVA
              then int32 (contador s h + numPersonas msg)
              else contador s h)"
proof -
  have cabe: "length (reservas s) < MAX_RESERVAS"
    using realizarReserva_Inr(1) [OF r] .
  from realizarReserva_efecto [OF len v cabe, of msg]
  obtain t where t: "realizarReserva msg hora s = Inr t"
    and l: "length (ocupacionPorHora t) = MAX_HORAS"
    and c: "\<And>h. validarHora h \<Longrightarrow>
           contador t h =
             (if hora \<le> h \<and> h < hora + DURACION_RESERVA
              then int32 (contador s h + numPersonas msg)
              else contador s h)"
    by blast
  from t r have "t = s'" by simp
  with l show "length (ocupacionPorHora s') = MAX_HORAS" by simp
  from \<open>t = s'\<close> c show "validarHora h \<Longrightarrow>
           contador s' h =
             (if hora \<le> h \<and> h < hora + DURACION_RESERVA
              then int32 (contador s h + numPersonas msg)
              else contador s h)"
    by simp
qed

subsection \<open>The branches of a request\<close>

lemma buscarHoraAlternativa_casos:
  assumes len: "length (ocupacionPorHora s) = MAX_HORAS"
  obtains (ninguna) "buscarHoraAlternativa s n = Some None"
      "\<forall>k. horaActual s \<le> k \<and> k \<le> horaFinal s - DURACION_RESERVA + 1 \<longrightarrow> \<not> candidatoDisponible s n k"
  | (hallada) a where "buscarHoraAlternativa s n = Some (Some a)"
      "horaActual s \<le> a" "a \<le> horaFinal s - DURACION_RESERVA + 1" "candidatoDisponible s n a"
      "\<forall>k. horaActual s \<le> k \<and> k < a \<longrightarrow> \<not> candidatoDisponible s n k"
proof -
  have sp: "buscar_spec s n (horaActual s) (buscarHoraAlternativa s n)"
    unfolding buscarHoraAlternativa_def using len by (rule buscar_desde_spec)
  show ?thesis
  proof (cases "buscarHoraAlternativa s n")
    case None
    with sp show ?thesis by (simp add: buscar_spec_def)
  next
    case (Some r)
    show ?thesis
    proof (cases r)
      case None
      with Some sp ninguna show ?thesis by (simp add: buscar_spec_def)
    next
      case (Some a)
      with \<open>buscarHoraAlternativa s n = Some r\<close> sp hallada [of a] show ?thesis
        by (simp add: buscar_spec_def)
    qed
  qed
qed


lemma reprogramar_casos:
  assumes len: "length (ocupacionPorHora s) = MAX_HORAS"
  obtains (negada) "buscarHoraAlternativa s (numPersonas msg) = Some None"
      "reprogramar msg s = Inr (negada s)"
      "\<forall>k. horaActual s \<le> k \<and> k \<le> horaFinal s - DURACION_RESERVA + 1 \<longrightarrow>
           \<not> candidatoDisponible s (numPersonas msg) k"
  | (llena) a where "buscarHoraAlternativa s (numPersonas msg) = Some (Some a)"
      "MAX_RESERVAS \<le> length (reservas s)"
      "reprogramar msg s = Inl ReservasLlenas"
  | (reprog) a s' where "buscarHoraAlternativa s (numPersonas msg) = Some (Some a)"
      "horaActual s \<le> a" "a \<le> horaFinal s - DURACION_RESERVA + 1"
      "candidatoDisponible s (numPersonas msg) a"
      "\<forall>k. horaActual s \<le> k \<and> k < a \<longrightarrow> \<not> candidatoDisponible s (numPersonas msg) k"
      "realizarReserva msg a (s\<lparr> solicitudesReprogramadas := solicitudesReprogramadas s + 1 \<rparr>) = Inr s'"
      "reprogramar msg s =
         Inr (\<lparr> tipo_resp = RESP_RESERVA_REPROG, horaAsignada = Some a,
                horaActual_resp = horaActual s \<rparr>, s')"
proof (rule buscarHoraAlternativa_casos [OF len, of "numPersonas msg"])
  assume "buscarHoraAlternativa s (numPersonas msg) = Some None"
    and "\<forall>k. horaActual s \<le> k \<and> k \<le> horaFinal s - DURACION_RESERVA + 1 \<longrightarrow>
           \<not> candidatoDisponible s (numPersonas msg) k"
  then show ?thesis using negada by (simp add: reprogramar_def)
next
  fix a
  assume hallada: "buscarHoraAlternativa s (numPersonas msg) = Some (Some a)"
      "horaActual s \<le> a" "a \<le> horaFinal s - DURACION_RESERVA + 1"
      "candidatoDisponible s (numPersonas msg) a"
      "\<forall>k. horaActual s \<le> k \<and> k < a \<longrightarrow> \<not> candidatoDisponible s (numPersonas msg) k"
  let ?s1 = "s\<lparr> solicitudesReprogramadas := solicitudesReprogramadas s + 1 \<rparr>"
  show ?thesis
  proof (cases "length (reservas s) < MAX_RESERVAS")
    case False
    then have "realizarReserva msg a ?s1 = Inl ReservasLlenas"
      by (simp add: realizarReserva_llena)
    with hallada(1) have "reprogramar msg s = Inl ReservasLlenas"
      by (simp add: reprogramar_def)
    with hallada(1) False llena show ?thesis by simp
  next
    case True
    have v: "validarHora a" using hallada(4) by (simp add: candidatoDisponible_iff)
    have len1: "length (ocupacionPorHora ?s1) = MAX_HORAS" using len by simp
    have cabe1: "length (reservas ?s1) < MAX_RESERVAS" using True by simp
    from realizarReserva_efecto [OF len1 v cabe1, of msg]
    obtain s' where r: "realizarReserva msg a ?s1 = Inr s'" by blast
    have "reprogramar msg s =
           Inr (\<lparr> tipo_resp = RESP_RESERVA_REPROG, horaAsignada = Some a,
                  horaActual_resp = horaActual s \<rparr>, s')"
      using hallada(1) r by (simp add: reprogramar_def)
    with hallada r show ?thesis using reprog by blast
  qed
qed

lemma procesarSolicitudReserva_casos:
  assumes len: "length (ocupacionPorHora s) = MAX_HORAS"
  obtains (negada) "procesarSolicitudReserva msg s = Inr (negada s)"
  | (llena) "MAX_RESERVAS \<le> length (reservas s)"
      "procesarSolicitudReserva msg s = Inl ReservasLlenas"
  | (ok) s' where "validarHora (horaSolicitada msg)" "numPersonas msg \<le> aforoMaximo s"
      "verificarDisponibilidad s (horaSolicitada msg) (numPersonas msg) = Some True"
      "realizarReserva msg (horaSolicitada msg)
          (s\<lparr> solicitudesAceptadas := solicitudesAceptadas s + 1 \<rparr>) = Inr s'"
      "procesarSolicitudReserva msg s =
         Inr (\<lparr> tipo_resp = RESP_RESERVA_OK, horaAsignada = Some (horaSolicitada msg),
                horaActual_resp = horaActual s \<rparr>, s')"
  | (reprog) a s' where "numPersonas msg \<le> aforoMaximo s"
      "candidatoDisponible s (numPersonas msg) a"
      "realizarReserva msg a (s\<lparr> solicitudesReprogramadas := solicitudesReprogramadas s + 1 \<rparr>) = Inr s'"
      "procesarSolicitudReserva msg s =
         Inr (\<lparr> tipo_resp = RESP_RESERVA_REPROG, horaAsignada = Some a,
                horaActual_resp = horaActual s \<rparr>, s')"
proof -
  consider (a) "\<not> validarHora (horaSolicitada msg) \<or> numPersonas msg > aforoMaximo s"
    | (b) "validarHora (horaSolicitada msg)" "\<not> numPersonas msg > aforoMaximo s"
          "horaSolicitada msg < horaActual s"
    | (c) "validarHora (horaSolicitada msg)" "\<not> numPersonas msg > aforoMaximo s"
          "\<not> horaSolicitada msg < horaActual s" "horaSolicitada msg > horaFinal s"
    | (d) "validarHora (horaSolicitada msg)" "\<not> numPersonas msg > aforoMaximo s"
          "\<not> horaSolicitada msg < horaActual s" "\<not> horaSolicitada msg > horaFinal s"
    by blast
  then show ?thesis
  proof cases
    case a
    then show ?thesis using negada by (auto simp: procesarSolicitudReserva_def)
  next
    case b
    then have p: "procesarSolicitudReserva msg s = reprogramar msg s"
      by (simp add: procesarSolicitudReserva_def)
    from b have n: "numPersonas msg \<le> aforoMaximo s" by simp
    show ?thesis
      by (rule reprogramar_casos [OF len, of msg]) (use p n negada llena reprog in auto)
  next
    case c
    then show ?thesis using negada by (simp add: procesarSolicitudReserva_def)
  next
    case d
    let ?s1 = "s\<lparr> solicitudesAceptadas := solicitudesAceptadas s + 1 \<rparr>"
    from d have n: "numPersonas msg \<le> aforoMaximo s" by simp
    show ?thesis
    proof (cases "verificarDisponibilidad s (horaSolicitada msg) (numPersonas msg) = Some True")
      case True
      show ?thesis
      proof (cases "length (reservas s) < MAX_RESERVAS")
        case False
        then have "realizarReserva msg (horaSolicitada msg) ?s1 = Inl ReservasLlenas"
          by (simp add: realizarReserva_llena)
        then have "procesarSolicitudReserva msg s = Inl ReservasLlenas"
          using d True by (simp add: procesarSolicitudReserva_def)
        with False llena show ?thesis by simp
      next
        case cabe: True
        have len1: "length (ocupacionPorHora ?s1) = MAX_HORAS" using len by simp
        have cabe1: "length (reservas ?s1) < MAX_RESERVAS" using cabe by simp
        from realizarReserva_efecto [OF len1 d(1) cabe1, of msg]
        obtain s' where r: "realizarReserva msg (horaSolicitada msg) ?s1 = Inr s'" by blast
        have "procesarSolicitudReserva msg s =
           Inr (\<lparr> tipo_resp = RESP_RESERVA_OK, horaAsignada = Some (horaSolicitada msg),
                  horaActual_resp = horaActual s \<rparr>, s')"
          using d True r by (simp add: procesarSolicitudReserva_def)
        with d(1) n True r ok show ?thesis by blast
      qed
    next
      case False
      then have "verificarDisponibilidad s (horaSolicitada msg) (numPersonas msg) = Some False"
        using len by (simp add: verificarDisponibilidad_eq)
      with d have p: "procesarSolicitudReserva msg s = reprogramar msg s"
        by (simp add: procesarSolicitudReserva_def)
      show ?thesis
        by (rule reprogramar_casos [OF len, of msg]) (use p n negada llena reprog in auto)
    qed
  qed
qed

subsection \<open>One request, one step, one run\<close>

lemma procesarSolicitudReserva_sin_fuera:
  assumes "length (ocupacionPorHora s) = MAX_HORAS"
  shows "procesarSolicitudReserva msg s \<noteq> Inl OcupacionFueraDeRango"
  by (rule procesarSolicitudReserva_casos [OF assms, of msg]) simp_all

lemma procesarSolicitudReserva_total:
  assumes "length (ocupacionPorHora s) = MAX_HORAS" and "length (reservas s) < MAX_RESERVAS"
  shows "\<exists>r s'. procesarSolicitudReserva msg s = Inr (r, s')"
  by (rule procesarSolicitudReserva_casos [OF assms(1), of msg]) (use assms(2) in \<open>auto simp: negada_def\<close>)

text \<open>
  What one request does to the counters and to the store: nothing, or one record
  appended and one window charged after its 32-bit sums passed the check.
\<close>

lemma procesarSolicitudReserva_efecto:
  assumes len: "length (ocupacionPorHora s) = MAX_HORAS"
    and p: "procesarSolicitudReserva msg s = Inr (r, s')"
  shows "length (ocupacionPorHora s') = MAX_HORAS \<and> aforoMaximo s' = aforoMaximo s \<and>
         ((reservas s' = reservas s \<and> (\<forall>h. validarHora h \<longrightarrow> contador s' h = contador s h)) \<or>
          (\<exists>a. reservas s' = reservas s @ [nuevaReserva msg a] \<and>
               length (reservas s) < MAX_RESERVAS \<and>
               numPersonas msg \<le> aforoMaximo s \<and>
               conCupo s a (numPersonas msg) \<and> cargada s a (numPersonas msg) s'))"
proof (rule procesarSolicitudReserva_casos [OF len, of msg])
  assume "procesarSolicitudReserva msg s = Inr (negada s)"
  with p have "s' = s\<lparr> solicitudesNegadas := solicitudesNegadas s + 1 \<rparr>"
    by (simp add: negada_def)
  then show ?thesis using len by simp
next
  assume "procesarSolicitudReserva msg s = Inl ReservasLlenas"
  with p show ?thesis by simp
next
  fix t
  let ?a = "horaSolicitada msg"
  let ?s1 = "s\<lparr> solicitudesAceptadas := solicitudesAceptadas s + 1 \<rparr>"
  assume v: "validarHora ?a" and n: "numPersonas msg \<le> aforoMaximo s"
    and ver: "verificarDisponibilidad s ?a (numPersonas msg) = Some True"
    and r: "realizarReserva msg ?a ?s1 = Inr t"
    and q: "procesarSolicitudReserva msg s =
         Inr (\<lparr> tipo_resp = RESP_RESERVA_OK, horaAsignada = Some ?a,
                horaActual_resp = horaActual s \<rparr>, t)"
  from p q have t: "t = s'" by simp
  have len1: "length (ocupacionPorHora ?s1) = MAX_HORAS" using len by simp
  have cupo: "conCupo s ?a (numPersonas msg)"
    unfolding conCupo_def
  proof (intro allI impI)
    fix h assume h: "?a \<le> h \<and> h < ?a + DURACION_RESERVA \<and> validarHora h"
    then have "h = ?a \<or> h = ?a + 1" by (auto simp: DURACION_RESERVA_def)
    with h v ver show "int32 (contador s h + numPersonas msg) \<le> aforoMaximo s"
      using len by (auto simp: verificarDisponibilidad_eq)
  qed
  have c: "cargada s ?a (numPersonas msg) s'"
    unfolding cargada_def using realizarReserva_contador(2) [OF len1 v r] t by simp
  have l: "length (ocupacionPorHora s') = MAX_HORAS"
    using realizarReserva_contador(1) [OF len1 v r] t by simp
  have "aforoMaximo s' = aforoMaximo s" "reservas s' = reservas s @ [nuevaReserva msg ?a]"
    "length (reservas s) < MAX_RESERVAS"
    using realizarReserva_Inr [OF r] t by simp_all
  with l n cupo c show ?thesis by blast
next
  fix a t
  let ?s1 = "s\<lparr> solicitudesReprogramadas := solicitudesReprogramadas s + 1 \<rparr>"
  assume n: "numPersonas msg \<le> aforoMaximo s"
    and cand: "candidatoDisponible s (numPersonas msg) a"
    and r: "realizarReserva msg a ?s1 = Inr t"
    and q: "procesarSolicitudReserva msg s =
         Inr (\<lparr> tipo_resp = RESP_RESERVA_REPROG, horaAsignada = Some a,
                horaActual_resp = horaActual s \<rparr>, t)"
  from p q have t: "t = s'" by simp
  have v: "validarHora a" using cand by (simp add: candidatoDisponible_iff)
  have len1: "length (ocupacionPorHora ?s1) = MAX_HORAS" using len by simp
  have cupo: "conCupo s a (numPersonas msg)"
    unfolding conCupo_def
  proof (intro allI impI)
    fix h assume h: "a \<le> h \<and> h < a + DURACION_RESERVA \<and> validarHora h"
    then have "h = a \<or> h = a + 1" by (auto simp: DURACION_RESERVA_def)
    with cand show "int32 (contador s h + numPersonas msg) \<le> aforoMaximo s"
      by (auto simp: candidatoDisponible_iff)
  qed
  have c: "cargada s a (numPersonas msg) s'"
    unfolding cargada_def using realizarReserva_contador(2) [OF len1 v r] t by simp
  have l: "length (ocupacionPorHora s') = MAX_HORAS"
    using realizarReserva_contador(1) [OF len1 v r] t by simp
  have "aforoMaximo s' = aforoMaximo s" "reservas s' = reservas s @ [nuevaReserva msg a]"
    "length (reservas s) < MAX_RESERVAS"
    using realizarReserva_Inr [OF r] t by simp_all
  with l n cupo c show ?thesis by blast
qed


lemma paso_total:
  assumes "length (ocupacionPorHora s) = MAX_HORAS" and "length (reservas s) < MAX_RESERVAS"
  shows "\<exists>s'. paso e s = Inr s'"
proof (cases e)
  case Tic
  then show ?thesis by simp
next
  case (Mensaje msg)
  with procesarSolicitudReserva_total [OF assms, of msg] show ?thesis
    by (cases "tipo msg")
      (auto simp: procesarMensaje_def registrarAgente_def split: sum.splits prod.splits)
qed

lemma paso_efecto:
  assumes len: "length (ocupacionPorHora s) = MAX_HORAS"
    and p: "paso e s = Inr s'"
  shows "length (ocupacionPorHora s') = MAX_HORAS \<and> aforoMaximo s' = aforoMaximo s \<and>
         ((length (reservas s') = length (reservas s) \<and>
           (\<forall>h. validarHora h \<longrightarrow> contador s' h = contador s h)) \<or>
          (\<exists>msg a. e = Mensaje msg \<and> tipo msg = MSG_SOLICITUD_RESERVA \<and>
               reservas s' = reservas s @ [nuevaReserva msg a] \<and>
               length (reservas s) < MAX_RESERVAS \<and>
               numPersonas msg \<le> aforoMaximo s \<and>
               conCupo s a (numPersonas msg) \<and> cargada s a (numPersonas msg) s'))"
proof (cases e)
  case Tic
  with p have "s' = hiloReloj_paso s" by simp
  then show ?thesis
    using len by (simp add: hiloReloj_paso_def avanzarHora_def Let_def)
next
  case (Mensaje msg)
  show ?thesis
  proof (cases "tipo msg")
    case MSG_REGISTRO
    with p Mensaje have "s' = snd (registrarAgente msg s)"
      by (simp add: procesarMensaje_def split: prod.splits)
    then show ?thesis
      using len by (simp add: registrarAgente_def)
  next
    case MSG_SOLICITUD_RESERVA
    with p Mensaje obtain r where q: "procesarSolicitudReserva msg s = Inr (r, s')"
      by (auto simp: procesarMensaje_def split: sum.splits)
    from procesarSolicitudReserva_efecto [OF len q] Mensaje MSG_SOLICITUD_RESERVA
    show ?thesis by auto
  next
    case MSG_FIN_AGENTE
    with p Mensaje have "s' = s" by (simp add: procesarMensaje_def)
    then show ?thesis using len by simp
  next
    case MSG_OTRO
    with p Mensaje have "s' = s" by (simp add: procesarMensaje_def)
    then show ?thesis using len by simp
  qed
qed

lemma paso_longitudes:
  assumes "length (ocupacionPorHora s) = MAX_HORAS" and "paso e s = Inr s'"
  shows "length (ocupacionPorHora s') = MAX_HORAS" and "aforoMaximo s' = aforoMaximo s"
    and "length (reservas s') \<le> length (reservas s) + 1"
    and "length (reservas s) \<le> MAX_RESERVAS \<Longrightarrow> length (reservas s') \<le> MAX_RESERVAS"
  using paso_efecto [OF assms] by auto


lemma ejecutar_total:
  "length (ocupacionPorHora s) = MAX_HORAS \<Longrightarrow>
   length (reservas s) + length evs \<le> MAX_RESERVAS \<Longrightarrow> \<exists>s'. ejecutar evs s = Inr s'"
proof (induction evs arbitrary: s)
  case Nil
  then show ?case by simp
next
  case (Cons e evs)
  from Cons.prems have cabe: "length (reservas s) < MAX_RESERVAS" by simp
  from paso_total [OF Cons.prems(1) cabe, of e]
  obtain s1 where p: "paso e s = Inr s1" by blast
  from paso_longitudes [OF Cons.prems(1) p] Cons.prems(2)
  have "length (ocupacionPorHora s1) = MAX_HORAS"
    and "length (reservas s1) + length evs \<le> MAX_RESERVAS"
    by simp_all
  from Cons.IH [OF this] p show ?case by simp
qed

lemma ejecutar_longitudes:
  "length (ocupacionPorHora s) = MAX_HORAS \<Longrightarrow> ejecutar evs s = Inr s' \<Longrightarrow>
   length (ocupacionPorHora s') = MAX_HORAS \<and> aforoMaximo s' = aforoMaximo s \<and>
   (length (reservas s) \<le> MAX_RESERVAS \<longrightarrow> length (reservas s') \<le> MAX_RESERVAS)"
proof (induction evs arbitrary: s)
  case Nil
  then show ?case by simp
next
  case (Cons e evs)
  from Cons.prems(2) obtain s1 where p: "paso e s = Inr s1" and e: "ejecutar evs s1 = Inr s'"
    by (auto split: sum.splits)
  from paso_longitudes [OF Cons.prems(1) p] Cons.IH [OF _ e] show ?case by simp
qed

subsection \<open>Invariants of a step\<close>

lemma cargada_contador:
  "cargada s a n s' \<Longrightarrow> validarHora h \<Longrightarrow>
   contador s' h =
     (if a \<le> h \<and> h < a + DURACION_RESERVA then int32 (contador s h + n) else contador s h)"
  by (simp add: cargada_def)

lemma conCupo_contador:
  "conCupo s a n \<Longrightarrow> a \<le> h \<and> h < a + DURACION_RESERVA \<Longrightarrow> validarHora h \<Longrightarrow>
   int32 (contador s h + n) \<le> aforoMaximo s"
  by (simp add: conCupo_def)

text \<open>The two shapes of a step, as an elimination rule.\<close>

lemma paso_formas:
  assumes len: "length (ocupacionPorHora s) = MAX_HORAS" and p: "paso e s = Inr s'"
  obtains (igual) "\<forall>h. validarHora h \<longrightarrow> contador s' h = contador s h"
  | (carga) msg a where "e = Mensaje msg" "tipo msg = MSG_SOLICITUD_RESERVA"
      "numPersonas msg \<le> aforoMaximo s" "conCupo s a (numPersonas msg)"
      "cargada s a (numPersonas msg) s'"
  using paso_efecto [OF len p] by blast

lemma paso_sin_sobrecupo:
  assumes len: "length (ocupacionPorHora s) = MAX_HORAS"
    and inv: "\<forall>h. validarHora h \<longrightarrow> contador s h \<le> aforoMaximo s"
    and p: "paso e s = Inr s'"
  shows "\<forall>h. validarHora h \<longrightarrow> contador s' h \<le> aforoMaximo s'"
proof (intro allI impI)
  fix h assume v: "validarHora h"
  have a: "aforoMaximo s' = aforoMaximo s"
    using paso_longitudes(2) [OF len p] .
  show "contador s' h \<le> aforoMaximo s'"
  proof (rule paso_formas [OF len p])
    assume "\<forall>h. validarHora h \<longrightarrow> contador s' h = contador s h"
    with v inv a show ?thesis by simp
  next
    fix msg a'
    assume cupo: "conCupo s a' (numPersonas msg)"
      and ef: "cargada s a' (numPersonas msg) s'"
    note eq = cargada_contador [OF ef v]
    show ?thesis
    proof (cases "a' \<le> h \<and> h < a' + DURACION_RESERVA")
      case True
      then have "contador s' h = int32 (contador s h + numPersonas msg)"
        by (simp add: eq)
      with conCupo_contador [OF cupo True v] a show ?thesis by simp
    next
      case False
      then have "contador s' h = contador s h"
        unfolding eq by (rule if_not_P)
      with inv v a show ?thesis by simp
    qed
  qed
qed

lemma ejecutar_sin_sobrecupo:
  "length (ocupacionPorHora s) = MAX_HORAS \<Longrightarrow>
   \<forall>h. validarHora h \<longrightarrow> contador s h \<le> aforoMaximo s \<Longrightarrow>
   ejecutar evs s = Inr s' \<Longrightarrow>
   \<forall>h. validarHora h \<longrightarrow> contador s' h \<le> aforoMaximo s'"
proof (induction evs arbitrary: s)
  case Nil
  then show ?case by simp
next
  case (Cons e evs)
  from Cons.prems(3) obtain s1 where p: "paso e s = Inr s1" and e: "ejecutar evs s1 = Inr s'"
    by (auto split: sum.splits)
  from paso_longitudes(1) [OF Cons.prems(1) p] paso_sin_sobrecupo [OF Cons.prems(1,2) p] e
  show ?case by (rule Cons.IH)
qed

lemma inicializarServidor_vacio:
  "length (ocupacionPorHora (inicializarServidor hi hf aforo)) = MAX_HORAS"
  "validarHora h \<Longrightarrow> contador (inicializarServidor hi hf aforo) h = 0"
  "reservas (inicializarServidor hi hf aforo) = []"
  "aforoMaximo (inicializarServidor hi hf aforo) = aforo"
  by (simp_all add: inicializarServidor_def contador_def indice_menor)

text \<open>
  A step that handles no negative party size, in a state whose counters are C values
  at most the capacity, with a capacity whose double is a C value: no sum wraps, and no
  counter decreases.
\<close>

lemma paso_monotono:
  assumes len: "length (ocupacionPorHora s) = MAX_HORAS"
    and rango: "\<forall>h. validarHora h \<longrightarrow> - (2 ^ 31) \<le> contador s h \<and> contador s h \<le> aforoMaximo s"
    and aforo: "2 * aforoMaximo s < 2 ^ 31"
    and nn: "sinPersonasNegativas e"
    and p: "paso e s = Inr s'"
  shows "\<forall>h. validarHora h \<longrightarrow> contador s h \<le> contador s' h"
proof (intro allI impI)
  fix h assume v: "validarHora h"
  show "contador s h \<le> contador s' h"
  proof (rule paso_formas [OF len p])
    assume "\<forall>h. validarHora h \<longrightarrow> contador s' h = contador s h"
    with v show ?thesis by simp
  next
    fix msg a
    assume e: "e = Mensaje msg" "tipo msg = MSG_SOLICITUD_RESERVA"
      and n: "numPersonas msg \<le> aforoMaximo s"
      and ef: "cargada s a (numPersonas msg) s'"
    from e nn have n0: "0 \<le> numPersonas msg" by (simp add: sinPersonasNegativas_def)
    from rango v have r: "- (2 ^ 31) \<le> contador s h" "contador s h \<le> aforoMaximo s" by simp_all
    have "enInt32 (contador s h + numPersonas msg)"
      using r n n0 aforo by (simp add: enInt32_def)
    then have w: "int32 (contador s h + numPersonas msg) = contador s h + numPersonas msg"
      by (rule int32_id)
    show ?thesis
      unfolding cargada_contador [OF ef v] w using n0 by simp
  qed
qed

lemma paso_rango:
  assumes len: "length (ocupacionPorHora s) = MAX_HORAS"
    and rango: "\<forall>h. validarHora h \<longrightarrow> - (2 ^ 31) \<le> contador s h"
    and p: "paso e s = Inr s'"
  shows "\<forall>h. validarHora h \<longrightarrow> - (2 ^ 31) \<le> contador s' h"
proof (intro allI impI)
  fix h assume v: "validarHora h"
  show "- (2 ^ 31) \<le> contador s' h"
  proof (rule paso_formas [OF len p])
    assume "\<forall>h. validarHora h \<longrightarrow> contador s' h = contador s h"
    with v rango show ?thesis by simp
  next
    fix msg a
    assume ef: "cargada s a (numPersonas msg) s'"
    have "- (2 ^ 31) \<le> int32 (contador s h + numPersonas msg)"
      using enInt32_int32 [of "contador s h + numPersonas msg"] by (simp add: enInt32_def)
    with rango v show ?thesis
      unfolding cargada_contador [OF ef v] by simp
  qed
qed

subsection \<open>The stored records\<close>

lemma bienFormada_reloj [simp]:
  "bienFormada (activar h r) = bienFormada r"
  "bienFormada (desactivar h r) = bienFormada r"
  by (simp_all add: activar_def desactivar_def bienFormada_def)

lemma avanzarHora_bienFormadas:
  "list_all bienFormada (reservas s) \<Longrightarrow> list_all bienFormada (reservas (avanzarHora s))"
  by (simp add: avanzarHora_def Let_def list_all_iff)

lemma procesarSolicitudReserva_reservas:
  assumes "procesarSolicitudReserva msg s = Inr (r, s')"
  shows "reservas s' = reservas s \<or> (\<exists>a. reservas s' = reservas s @ [nuevaReserva msg a])"
proof -
  have rep: "reservas t = reservas s \<or> (\<exists>a. reservas t = reservas s @ [nuevaReserva msg a])"
    if "reprogramar msg s = Inr (q, t)" for q t
    using that
    by (auto simp: reprogramar_def negada_def realizarReserva_def
        split: option.splits sum.splits if_splits)
  show ?thesis
    using assms rep
    by (auto simp: procesarSolicitudReserva_def negada_def realizarReserva_def
        split: if_splits option.splits bool.splits sum.splits)
qed

lemma paso_bienFormadas:
  assumes "list_all bienFormada (reservas s)" and "paso e s = Inr s'"
  shows "list_all bienFormada (reservas s')"
proof (cases e)
  case Tic
  with assms show ?thesis
    by (auto simp: hiloReloj_paso_def avanzarHora_bienFormadas)
next
  case (Mensaje msg)
  show ?thesis
  proof (cases "tipo msg")
    case MSG_SOLICITUD_RESERVA
    with assms(2) Mensaje obtain r where "procesarSolicitudReserva msg s = Inr (r, s')"
      by (auto simp: procesarMensaje_def split: sum.splits)
    from procesarSolicitudReserva_reservas [OF this] assms(1) show ?thesis
      by (auto simp: bienFormada_def nuevaReserva_def)
  next
    case MSG_REGISTRO
    with assms Mensaje show ?thesis
      by (auto simp: procesarMensaje_def registrarAgente_def split: if_splits)
  next
    case MSG_FIN_AGENTE
    with assms Mensaje show ?thesis by (auto simp: procesarMensaje_def)
  next
    case MSG_OTRO
    with assms Mensaje show ?thesis by (auto simp: procesarMensaje_def)
  qed
qed

lemma ejecutar_bienFormadas:
  "list_all bienFormada (reservas s) \<Longrightarrow> ejecutar evs s = Inr s' \<Longrightarrow>
   list_all bienFormada (reservas s')"
proof (induction evs arbitrary: s)
  case Nil
  then show ?case by simp
next
  case (Cons e evs)
  then show ?case
    by (auto split: sum.splits dest: paso_bienFormadas)
qed

lemma avanzarHora_activa:
  assumes "bienFormada r"
  shows "(horaInicio r = h \<longrightarrow> activa (desactivar h (activar h r))) \<and>
         (horaFin r < h \<longrightarrow> \<not> activa (desactivar h (activar h r))) \<and>
         (horaInicio r \<noteq> h \<and> \<not> horaFin r < h \<longrightarrow>
            activa (desactivar h (activar h r)) = activa r) \<and>
         (desactivar h (activar h r))\<lparr> activa := activa r \<rparr> = r"
  using assms
  by (auto simp: activar_def desactivar_def bienFormada_def DURACION_RESERVA_def)

subsection \<open>Sums that do not wrap\<close>

lemma sinDesborde_contador:
  assumes "length (ocupacionPorHora s) = MAX_HORAS" and "sinDesborde s n" and "validarHora h"
  shows "int32 (contador s h + n) = contador s h + n"
proof -
  have "nat (indiceHora h) < length (ocupacionPorHora s)"
    using assms(1,3) by (simp add: indice_menor)
  with assms(2) have "enInt32 (contador s h + n)"
    by (simp add: sinDesborde_def list_all_length contador_def)
  then show ?thesis by (rule int32_id)
qed

lemma candidatoDisponible_Valido:
  assumes "length (ocupacionPorHora s) = MAX_HORAS" and "sinDesborde s n"
  shows "candidatoDisponible s n h = candidatoValido s n h"
  using sinDesborde_contador [OF assms]
  by (auto simp: candidatoDisponible_iff candidatoValido_iff)

subsection \<open>The counter and the persons of the stored reservations\<close>

lemma personasEn_append:
  "personasEn (rs @ [r]) h =
     personasEn rs h + (if horaInicio r \<le> h \<and> h \<le> horaFin r then numPersonas_res r else 0)"
  by (simp add: personasEn_def)

lemma reloj_campos [simp]:
  "horaInicio (activar k r) = horaInicio r" "horaFin (activar k r) = horaFin r"
  "numPersonas_res (activar k r) = numPersonas_res r"
  "horaInicio (desactivar k r) = horaInicio r" "horaFin (desactivar k r) = horaFin r"
  "numPersonas_res (desactivar k r) = numPersonas_res r"
  by (simp_all add: activar_def desactivar_def)

lemma personasEn_map:
  assumes "\<And>r. horaInicio (f r) = horaInicio r \<and> horaFin (f r) = horaFin r \<and>
                numPersonas_res (f r) = numPersonas_res r"
  shows "personasEn (map f rs) h = personasEn rs h"
  by (induction rs) (simp_all add: personasEn_def assms)

lemma avanzarHora_personas:
  "personasEn (reservas (avanzarHora s)) h = personasEn (reservas s) h"
  by (simp add: avanzarHora_def Let_def personasEn_map)

lemma paso_personas:
  assumes "paso e s = Inr s'" and "length (reservas s') = length (reservas s)"
  shows "personasEn (reservas s') h = personasEn (reservas s) h"
proof (cases e)
  case Tic
  with assms(1) have "s' = avanzarHora s \<or> s' = s"
    by (auto simp: hiloReloj_paso_def)
  then show ?thesis
    by (auto simp: avanzarHora_personas)
next
  case (Mensaje msg)
  show ?thesis
  proof (cases "tipo msg")
    case MSG_SOLICITUD_RESERVA
    with assms(1) Mensaje obtain r where "procesarSolicitudReserva msg s = Inr (r, s')"
      by (auto simp: procesarMensaje_def split: sum.splits)
    from procesarSolicitudReserva_reservas [OF this] assms(2) show ?thesis
      by auto
  next
    case MSG_REGISTRO
    with assms(1) Mensaje show ?thesis
      by (auto simp: procesarMensaje_def registrarAgente_def split: if_splits)
  next
    case MSG_FIN_AGENTE
    with assms(1) Mensaje show ?thesis by (auto simp: procesarMensaje_def)
  next
    case MSG_OTRO
    with assms(1) Mensaje show ?thesis by (auto simp: procesarMensaje_def)
  qed
qed

text \<open>
  With a capacity whose double is a C value and no negative party size, no sum wraps, and
  each counter stays the number of persons of the stored reservations that cover its
  hour.
\<close>

lemma paso_acumulado:
  assumes len: "length (ocupacionPorHora s) = MAX_HORAS"
    and rango: "\<forall>h. validarHora h \<longrightarrow> - (2 ^ 31) \<le> contador s h \<and> contador s h \<le> aforoMaximo s"
    and aforo: "2 * aforoMaximo s < 2 ^ 31"
    and nn: "sinPersonasNegativas e"
    and acc: "\<forall>h. validarHora h \<longrightarrow> contador s h = personasEn (reservas s) h"
    and p: "paso e s = Inr s'"
  shows "\<forall>h. validarHora h \<longrightarrow> contador s' h = personasEn (reservas s') h"
proof (intro allI impI)
  fix h assume v: "validarHora h"
  note formas = paso_efecto [OF len p, THEN conjunct2, THEN conjunct2]
  from formas show "contador s' h = personasEn (reservas s') h"
  proof (elim disjE exE conjE)
    assume igual: "length (reservas s') = length (reservas s)"
      and c: "\<forall>h. validarHora h \<longrightarrow> contador s' h = contador s h"
    from c v have "contador s' h = contador s h" by simp
    also from acc v have "\<dots> = personasEn (reservas s) h" by simp
    also from paso_personas [OF p igual, of h] have "\<dots> = personasEn (reservas s') h" by simp
    finally show ?thesis .
  next
    fix msg a
    assume e: "e = Mensaje msg" and t: "tipo msg = MSG_SOLICITUD_RESERVA"
      and rs: "reservas s' = reservas s @ [nuevaReserva msg a]"
      and cabe: "numPersonas msg \<le> aforoMaximo s"
      and ef: "cargada s a (numPersonas msg) s'"
    from e t nn have n0: "0 \<le> numPersonas msg" by (simp add: sinPersonasNegativas_def)
    from rango v have r: "- (2 ^ 31) \<le> contador s h" "contador s h \<le> aforoMaximo s" by simp_all
    have "enInt32 (contador s h + numPersonas msg)"
      using r cabe n0 aforo by (simp add: enInt32_def)
    then have w: "int32 (contador s h + numPersonas msg) = contador s h + numPersonas msg"
      by (rule int32_id)
    from acc v have ac: "contador s h = personasEn (reservas s) h" by simp
    have nueva: "horaInicio (nuevaReserva msg a) = a"
      "horaFin (nuevaReserva msg a) = a + DURACION_RESERVA - 1"
      "numPersonas_res (nuevaReserva msg a) = numPersonas msg"
      by (simp_all add: nuevaReserva_def)
    show ?thesis
    proof (cases "a \<le> h \<and> h < a + DURACION_RESERVA")
      case True
      then have fin: "a \<le> h \<and> h \<le> a + DURACION_RESERVA - 1" by simp
      have "contador s' h = int32 (contador s h + numPersonas msg)"
        unfolding cargada_contador [OF ef v] using True by (rule if_P)
      also have "\<dots> = personasEn (reservas s) h + numPersonas msg"
        using w by (simp add: ac)
      also have "\<dots> = personasEn (reservas s') h"
        unfolding rs personasEn_append nueva if_P [OF fin] ..
      finally show ?thesis .
    next
      case False
      then have fin: "\<not> (a \<le> h \<and> h \<le> a + DURACION_RESERVA - 1)" by simp
      have "contador s' h = contador s h"
        unfolding cargada_contador [OF ef v] using False by (rule if_not_P)
      also have "\<dots> = personasEn (reservas s) h + 0"
        unfolding ac by simp
      also have "\<dots> = personasEn (reservas s') h"
        unfolding rs personasEn_append nueva if_not_P [OF fin] ..
      finally show ?thesis .
    qed
  qed
qed

lemma ejecutar_acumulado:
  "length (ocupacionPorHora s) = MAX_HORAS \<Longrightarrow>
   \<forall>h. validarHora h \<longrightarrow> - (2 ^ 31) \<le> contador s h \<and> contador s h \<le> aforoMaximo s \<Longrightarrow>
   2 * aforoMaximo s < 2 ^ 31 \<Longrightarrow>
   list_all sinPersonasNegativas evs \<Longrightarrow>
   \<forall>h. validarHora h \<longrightarrow> contador s h = personasEn (reservas s) h \<Longrightarrow>
   ejecutar evs s = Inr s' \<Longrightarrow>
   \<forall>h. validarHora h \<longrightarrow> contador s' h = personasEn (reservas s') h"
proof (induction evs arbitrary: s)
  case Nil
  then show ?case by simp
next
  case (Cons e evs)
  from Cons.prems(6) obtain s1 where p: "paso e s = Inr s1" and e: "ejecutar evs s1 = Inr s'"
    by (auto split: sum.splits)
  from Cons.prems(4) have nn: "sinPersonasNegativas e" and resto: "list_all sinPersonasNegativas evs"
    by simp_all
  note l1 = paso_longitudes(1,2) [OF Cons.prems(1) p]
  have inf: "\<forall>h. validarHora h \<longrightarrow> - (2 ^ 31) \<le> contador s h"
    and sup: "\<forall>h. validarHora h \<longrightarrow> contador s h \<le> aforoMaximo s"
    using Cons.prems(2) by simp_all
  have r1: "\<forall>h. validarHora h \<longrightarrow> - (2 ^ 31) \<le> contador s1 h \<and> contador s1 h \<le> aforoMaximo s1"
    using paso_rango [OF Cons.prems(1) inf p] paso_sin_sobrecupo [OF Cons.prems(1) sup p]
    by simp
  have a1: "2 * aforoMaximo s1 < 2 ^ 31"
    using Cons.prems(3) l1(2) by simp
  have acc1: "\<forall>h. validarHora h \<longrightarrow> contador s1 h = personasEn (reservas s1) h"
    using paso_acumulado [OF Cons.prems(1,2,3) nn Cons.prems(5) p] .
  from l1(1) r1 a1 resto acc1 e show ?case by (rule Cons.IH)
qed


text \<open>
  So, from the initial state, under the same two conditions, the persons that the stored
  reservations commit to an hour never exceed the capacity.
\<close>

lemma ejecutar_personas:
  assumes a0: "0 \<le> aforo" and a1: "2 * aforo < 2 ^ 31"
    and nn: "list_all sinPersonasNegativas evs"
    and e: "ejecutar evs (inicializarServidor hi hf aforo) = Inr s'"
    and v: "validarHora h"
  shows "contador s' h = personasEn (reservas s') h" and "personasEn (reservas s') h \<le> aforo"
proof -
  let ?s = "inicializarServidor hi hf aforo"
  note ini = inicializarServidor_vacio [of hi hf aforo]
  have sup: "\<forall>h. validarHora h \<longrightarrow> contador ?s h \<le> aforoMaximo ?s"
    using a0 by (simp add: inicializarServidor_vacio)
  have rango: "\<forall>h. validarHora h \<longrightarrow> - (2 ^ 31) \<le> contador ?s h \<and> contador ?s h \<le> aforoMaximo ?s"
    using a0 by (simp add: inicializarServidor_vacio)
  have aforo: "2 * aforoMaximo ?s < 2 ^ 31"
    using a1 by (simp add: ini(4))
  have acc: "\<forall>h. validarHora h \<longrightarrow> contador ?s h = personasEn (reservas ?s) h"
    by (simp add: inicializarServidor_vacio personasEn_def)
  from ejecutar_acumulado [OF ini(1) rango aforo nn acc e] v
  show c: "contador s' h = personasEn (reservas s') h" by simp
  from ejecutar_sin_sobrecupo [OF ini(1) sup e] v have "contador s' h \<le> aforoMaximo s'" by simp
  moreover from ejecutar_longitudes [OF ini(1) e] have "aforoMaximo s' = aforo"
    by (simp add: ini(4))
  ultimately show "personasEn (reservas s') h \<le> aforo"
    using c by simp
qed

section \<open>The claims\<close>

text \<open>
  In every statement below the hypothesis \<open>length (ocupacionPorHora s) = MAX_HORAS\<close>
  says that the occupancy array has the thirteen cells of its declaration, and
  \<open>length (reservas s) < MAX_RESERVAS\<close> that the store has room for one more record.
\<close>

subsection \<open>Approval, rescheduling and the last hour\<close>




text \<open>
  Claim C4 says that a late request is rescheduled when an alternative slot exists and
  denied otherwise.  The search tests the 32-bit sum: at hour 18 in the park of capacity
  two thousand million, with that many persons in the hours 18 and 19, the only
  candidate, hour 18, is not valid for a party of that size, yet the sum wraps below the
  capacity and the late request for hour 9 is rescheduled to hour 18.
\<close>

theorem C4_late_request_counterexample:
  "ejecutar (Mensaje (solicitud ''P'' 18 2000000000) # replicate 11 Tic) parque_grande =
     Inr parque_grande_18 \<and>
   7 \<le> horaSolicitada (solicitud ''Q'' 9 2000000000) \<and>
   horaSolicitada (solicitud ''Q'' 9 2000000000) \<le> 19 \<and>
   numPersonas (solicitud ''Q'' 9 2000000000) \<le> aforoMaximo parque_grande_18 \<and>
   horaSolicitada (solicitud ''Q'' 9 2000000000) < horaActual parque_grande_18 \<and>
   horaActual parque_grande_18 = 18 \<and>
   horaFinal parque_grande_18 - DURACION_RESERVA + 1 = 18 \<and>
   \<not> candidatoValido parque_grande_18 (numPersonas (solicitud ''Q'' 9 2000000000)) 18 \<and>
   map_sum id fst (procesarSolicitudReserva (solicitud ''Q'' 9 2000000000) parque_grande_18) =
     Inr \<lparr> tipo_resp = RESP_RESERVA_REPROG, horaAsignada = Some 18, horaActual_resp = 18 \<rparr>"
  by code_simp

text \<open>
  Claim C4 as amended.  While the store has room for one more record and no sum of a
  counter and the party size leaves the 32-bit range, a request whose hour is within 7
  and 19 and before the current hour, with a party of at most the maximum capacity, is
  rescheduled to the first valid candidate from the current hour on, when there is one:
  a record with that start hour, the end hour one later, the party size and the inactive
  flag is appended to the store, the hours of its window are charged with the party
  size, and the response carries that hour as the assigned hour.  When no candidate of
  the search range is valid the request is denied and only the counter of denied
  requests changes.
\<close>

theorem C4_late_request_amended:
  assumes len: "length (ocupacionPorHora s) = MAX_HORAS"
    and cabe: "length (reservas s) < MAX_RESERVAS"
    and sd: "sinDesborde s (numPersonas msg)"
    and rango: "7 \<le> horaSolicitada msg" "horaSolicitada msg \<le> 19"
    and aforo: "numPersonas msg \<le> aforoMaximo s"
    and tarde: "horaSolicitada msg < horaActual s"
  shows "(\<exists>a s'. horaActual s \<le> a \<and> a \<le> horaFinal s - DURACION_RESERVA + 1 \<and>
            candidatoValido s (numPersonas msg) a \<and>
            (\<forall>k. horaActual s \<le> k \<and> k < a \<longrightarrow> \<not> candidatoValido s (numPersonas msg) k) \<and>
            buscarHoraAlternativa s (numPersonas msg) = Some (Some a) \<and>
            procesarSolicitudReserva msg s =
              Inr (\<lparr> tipo_resp = RESP_RESERVA_REPROG, horaAsignada = Some a,
                     horaActual_resp = horaActual s \<rparr>, s') \<and>
            reservas s' = reservas s @
              [\<lparr> nombreFamilia_res = take 127 (nombreFamilia msg),
                 nombreAgente_res = take 127 (nombreAgente msg),
                 horaInicio = a,
                 horaFin = a + 1,
                 numPersonas_res = numPersonas msg,
                 activa = False \<rparr>] \<and>
            (\<forall>h. validarHora h \<longrightarrow>
               contador s' h =
                 (if a \<le> h \<and> h < a + DURACION_RESERVA then contador s h + numPersonas msg
                  else contador s h)) \<and>
            solicitudesReprogramadas s' = solicitudesReprogramadas s + 1)
         \<or>
         ((\<forall>k. horaActual s \<le> k \<and> k \<le> horaFinal s - DURACION_RESERVA + 1 \<longrightarrow>
               \<not> candidatoValido s (numPersonas msg) k) \<and>
          buscarHoraAlternativa s (numPersonas msg) = Some None \<and>
          procesarSolicitudReserva msg s =
            Inr (\<lparr> tipo_resp = RESP_RESERVA_NEGADA, horaAsignada = None,
                   horaActual_resp = horaActual s \<rparr>,
                 s\<lparr> solicitudesNegadas := solicitudesNegadas s + 1 \<rparr>))"
proof -
  let ?n = "numPersonas msg"
  have v: "validarHora (horaSolicitada msg)"
    using rango by (simp add: validarHora_def HORAS_MIN_def HORAS_MAX_def)
  have p: "procesarSolicitudReserva msg s = reprogramar msg s"
    using v aforo tarde by (simp add: procesarSolicitudReserva_def)
  note cv = candidatoDisponible_Valido [OF len sd]
  show ?thesis
  proof (rule reprogramar_casos [OF len, of msg])
    assume "buscarHoraAlternativa s ?n = Some None"
      and "reprogramar msg s = Inr (negada s)"
      and "\<forall>k. horaActual s \<le> k \<and> k \<le> horaFinal s - DURACION_RESERVA + 1 \<longrightarrow>
           \<not> candidatoDisponible s ?n k"
    then show ?thesis
      unfolding p cv by (simp add: negada_def)
  next
    fix a
    assume "MAX_RESERVAS \<le> length (reservas s)"
    with cabe show ?thesis by simp
  next
    fix a s'
    let ?s1 = "s\<lparr> solicitudesReprogramadas := solicitudesReprogramadas s + 1 \<rparr>"
    assume b: "buscarHoraAlternativa s ?n = Some (Some a)"
      and a: "horaActual s \<le> a" "a \<le> horaFinal s - DURACION_RESERVA + 1"
        "candidatoDisponible s ?n a"
        "\<forall>k. horaActual s \<le> k \<and> k < a \<longrightarrow> \<not> candidatoDisponible s ?n k"
      and r: "realizarReserva msg a ?s1 = Inr s'"
      and rp: "reprogramar msg s =
         Inr (\<lparr> tipo_resp = RESP_RESERVA_REPROG, horaAsignada = Some a,
                horaActual_resp = horaActual s \<rparr>, s')"
    have va: "validarHora a" using a(3) by (simp add: candidatoDisponible_iff)
    have len1: "length (ocupacionPorHora ?s1) = MAX_HORAS" using len by simp
    have ef: "\<forall>h. validarHora h \<longrightarrow>
               contador s' h =
                 (if a \<le> h \<and> h < a + DURACION_RESERVA then contador s h + ?n
                  else contador s h)"
      using realizarReserva_contador(2) [OF len1 va r] sinDesborde_contador [OF len sd]
      by simp
    have "reservas s' = reservas s @ [nuevaReserva msg a]"
      and sr: "solicitudesReprogramadas s' = solicitudesReprogramadas s + 1"
      using realizarReserva_Inr [OF r] by simp_all
    then have rs: "reservas s' = reservas s @
              [\<lparr> nombreFamilia_res = take 127 (nombreFamilia msg),
                 nombreAgente_res = take 127 (nombreAgente msg),
                 horaInicio = a, horaFin = a + 1,
                 numPersonas_res = ?n, activa = False \<rparr>]"
      by (simp add: nuevaReserva_def strncpy_def MAX_NOMBRE_def DURACION_RESERVA_def)
    from a(3,4) have a': "candidatoValido s ?n a"
        "\<forall>k. horaActual s \<le> k \<and> k < a \<longrightarrow> \<not> candidatoValido s ?n k"
      unfolding cv by simp_all
    from a(1,2) a' b rp rs ef sr show ?thesis
      unfolding p by (intro disjI1 exI [of _ a] exI [of _ s']) simp
  qed
qed

text \<open>
  The scenario of the specification: at hour 12 a request for hour 9 is rescheduled to
  hour 14, the first hour whose window has room for 20 more persons.
\<close>

theorem C4_late_request_amended_witness:
  "length (ocupacionPorHora parque_tarde) = MAX_HORAS \<and>
   length (reservas parque_tarde) < MAX_RESERVAS \<and>
   sinDesborde parque_tarde (numPersonas (solicitud ''E'' 9 20)) \<and>
   7 \<le> horaSolicitada (solicitud ''E'' 9 20) \<and>
   horaSolicitada (solicitud ''E'' 9 20) \<le> 19 \<and>
   numPersonas (solicitud ''E'' 9 20) \<le> aforoMaximo parque_tarde \<and>
   horaSolicitada (solicitud ''E'' 9 20) < horaActual parque_tarde \<and>
   buscarHoraAlternativa parque_tarde 20 = Some (Some 14) \<and>
   (\<exists>s'. procesarSolicitudReserva (solicitud ''E'' 9 20) parque_tarde =
            Inr (\<lparr> tipo_resp = RESP_RESERVA_REPROG, horaAsignada = Some 14,
                   horaActual_resp = 12 \<rparr>, s') \<and>
          map horaInicio (reservas s') = [14] \<and> map horaFin (reservas s') = [15])"
proof -
  let ?m = "solicitud ''E'' 9 20"
  have len: "length (ocupacionPorHora parque_tarde) = MAX_HORAS"
    by (simp add: ejemplo_defs consts_defs)
  have cabe: "length (reservas parque_tarde) < MAX_RESERVAS"
    by (simp add: ejemplo_defs MAX_RESERVAS_def)
  have sd: "sinDesborde parque_tarde (numPersonas ?m)"
    by code_simp
  have h: "7 \<le> horaSolicitada ?m" "horaSolicitada ?m \<le> 19"
      "numPersonas ?m \<le> aforoMaximo parque_tarde"
      "horaSolicitada ?m < horaActual parque_tarde"
    by (simp_all add: ejemplo_defs)
  have b: "buscarHoraAlternativa parque_tarde 20 = Some (Some 14)"
    by code_simp
  have n: "numPersonas ?m = 20" "horaActual parque_tarde = 12" "reservas parque_tarde = []"
    by (simp_all add: ejemplo_defs)
  from C4_late_request_amended [OF len cabe sd h] b n
  have "\<exists>s'. procesarSolicitudReserva ?m parque_tarde =
            Inr (\<lparr> tipo_resp = RESP_RESERVA_REPROG, horaAsignada = Some 14,
                   horaActual_resp = 12 \<rparr>, s') \<and>
          map horaInicio (reservas s') = [14] \<and> map horaFin (reservas s') = [15]"
    by auto
  with len cabe sd h b show ?thesis by simp
qed

text \<open>
  Claim C1.  At current hour 19, with end hour 19, the window 19 to 20 of a request for
  hour 19 leaves the day, and the claim says that the request is not approved.  The code
  approves it: the loop of \<open>verificarDisponibilidad\<close> ends at hour 20, which
  \<open>validarHora\<close> rejects, so hour 19 alone is checked, although the comment of the
  function announces the hour and the next hour and the search for an alternative
  rejects every window that leaves the range.  The state is the one that twelve ticks
  reach from the start of the day at hour 7; the search finds no alternative there.
\<close>

theorem C1_boundary_hour_approved:
  "ejecutar (replicate 12 Tic) parque = Inr parque_cierre \<and>
   horaActual parque_cierre = 19 \<and> horaFinal parque_cierre = 19 \<and>
   horaSolicitada (solicitud ''F'' 19 10) = 19 \<and>
   numPersonas (solicitud ''F'' 19 10) \<le> aforoMaximo parque_cierre \<and>
   buscarHoraAlternativa parque_cierre (numPersonas (solicitud ''F'' 19 10)) = Some None \<and>
   map_sum id fst (procesarSolicitudReserva (solicitud ''F'' 19 10) parque_cierre) =
     Inr \<lparr> tipo_resp = RESP_RESERVA_OK, horaAsignada = Some 19, horaActual_resp = 19 \<rparr> \<and>
   map_sum id (map horaFin \<circ> reservas \<circ> snd)
       (procesarSolicitudReserva (solicitud ''F'' 19 10) parque_cierre) = Inr [20]"
  by code_simp

subsection \<open>Alternative search\<close>

text \<open>
  Claim C5 says that the hour returned by the search is a valid candidate, with
  \<open>counter[h] + party_size \<le> max capacity\<close> on its window.  The search tests the 32-bit
  sum: in the park of capacity two thousand million at hour 8, with that many persons in
  the hours 8 and 9, the search for a party of that size returns hour 8, which is not a
  valid candidate, while hour 10 is one.
\<close>

theorem C5_earliest_alternative_counterexample:
  "ejecutar [Mensaje (solicitud ''P'' 8 2000000000), Tic] parque_grande = Inr parque_grande_8 \<and>
   length (ocupacionPorHora parque_grande_8) = MAX_HORAS \<and>
   buscarHoraAlternativa parque_grande_8 2000000000 = Some (Some 8) \<and>
   \<not> candidatoValido parque_grande_8 2000000000 8 \<and>
   candidatoValido parque_grande_8 2000000000 10"
  by code_simp

text \<open>
  Claim C5 as amended.  When no sum of a counter and the party size leaves the 32-bit
  range: whenever \<open>buscarHoraAlternativa\<close> returns an hour, that hour is a valid
  candidate, it lies between the current hour and the end hour minus the duration plus
  one, and no hour from the current hour up to it (excluded) is a valid candidate; it
  returns no hour exactly when no candidate of the range is valid.  The search never
  reads outside the occupancy array.
\<close>

theorem C5_earliest_alternative_amended:
  assumes len: "length (ocupacionPorHora s) = MAX_HORAS"
    and sd: "sinDesborde s n"
  shows "(buscarHoraAlternativa s n = Some (Some h) \<longrightarrow>
            candidatoValido s n h \<and> horaActual s \<le> h \<and>
            h \<le> horaFinal s - DURACION_RESERVA + 1 \<and>
            (\<forall>k. horaActual s \<le> k \<and> k < h \<longrightarrow> \<not> candidatoValido s n k)) \<and>
         (buscarHoraAlternativa s n = Some None \<longleftrightarrow>
            (\<forall>k. horaActual s \<le> k \<and> k \<le> horaFinal s - DURACION_RESERVA + 1 \<longrightarrow>
                 \<not> candidatoValido s n k)) \<and>
         buscarHoraAlternativa s n \<noteq> None"
proof (rule buscarHoraAlternativa_casos [OF len, of n])
  assume "buscarHoraAlternativa s n = Some None"
    and "\<forall>k. horaActual s \<le> k \<and> k \<le> horaFinal s - DURACION_RESERVA + 1 \<longrightarrow>
           \<not> candidatoDisponible s n k"
  then show ?thesis
    unfolding candidatoDisponible_Valido [OF len sd] by simp
next
  fix a
  assume "buscarHoraAlternativa s n = Some (Some a)"
      "horaActual s \<le> a" "a \<le> horaFinal s - DURACION_RESERVA + 1"
      "candidatoDisponible s n a"
      "\<forall>k. horaActual s \<le> k \<and> k < a \<longrightarrow> \<not> candidatoDisponible s n k"
  then have a: "buscarHoraAlternativa s n = Some (Some a)"
      "horaActual s \<le> a" "a \<le> horaFinal s - DURACION_RESERVA + 1"
      "candidatoValido s n a"
      "\<forall>k. horaActual s \<le> k \<and> k < a \<longrightarrow> \<not> candidatoValido s n k"
    unfolding candidatoDisponible_Valido [OF len sd] by simp_all
  have "\<not> (\<forall>k. horaActual s \<le> k \<and> k \<le> horaFinal s - DURACION_RESERVA + 1 \<longrightarrow>
                 \<not> candidatoValido s n k)"
    using a(2,3,4) by blast
  with a show ?thesis by auto
qed

text \<open>
  At hour 10 with 50 persons in the hours 10 and 11, a party of 60 gets hour 12, and
  the hours 10 and 11 are not valid candidates.
\<close>

theorem C5_earliest_alternative_amended_witness:
  "length (ocupacionPorHora parque_tras_A) = MAX_HORAS \<and>
   sinDesborde parque_tras_A 60 \<and>
   buscarHoraAlternativa parque_tras_A 60 = Some (Some 12) \<and>
   candidatoValido parque_tras_A 60 12 \<and>
   \<not> candidatoValido parque_tras_A 60 10 \<and>
   \<not> candidatoValido parque_tras_A 60 11"
proof -
  have len: "length (ocupacionPorHora parque_tras_A) = MAX_HORAS"
    by (simp add: ejemplo_defs consts_defs)
  have sd: "sinDesborde parque_tras_A 60"
    by code_simp
  have b: "buscarHoraAlternativa parque_tras_A 60 = Some (Some 12)"
    by code_simp
  have h: "horaActual parque_tras_A = 10"
    by (simp add: ejemplo_defs)
  from C5_earliest_alternative_amended [OF len sd, of 12] b len sd h show ?thesis by simp
qed

subsection \<open>Denials\<close>

text \<open>
  Claim C6.  A request whose hour is below 7 or above 19, or whose party is larger
  than the maximum capacity, is answered with a denial, whatever its other fields,
  the current hour and the rest of the state are.
\<close>

theorem C6_fail_fast_denial:
  assumes "horaSolicitada msg < 7 \<or> horaSolicitada msg > 19 \<or> numPersonas msg > aforoMaximo s"
  shows "procesarSolicitudReserva msg s =
           Inr (\<lparr> tipo_resp = RESP_RESERVA_NEGADA, horaAsignada = None,
                  horaActual_resp = horaActual s \<rparr>,
                s\<lparr> solicitudesNegadas := solicitudesNegadas s + 1 \<rparr>)"
  using assms
  by (auto simp: procesarSolicitudReserva_def negada_def validarHora_def HORAS_MIN_def HORAS_MAX_def)

text \<open>A request for hour 20 is denied in the empty park.\<close>

theorem C6_fail_fast_denial_witness:
  "horaSolicitada (solicitud ''C'' 20 4) > 19 \<and>
   procesarSolicitudReserva (solicitud ''C'' 20 4) parque =
     Inr (\<lparr> tipo_resp = RESP_RESERVA_NEGADA, horaAsignada = None, horaActual_resp = 7 \<rparr>,
          parque\<lparr> solicitudesNegadas := 1 \<rparr>)"
proof -
  have h: "horaSolicitada (solicitud ''C'' 20 4) > 19"
    by (simp add: solicitud_def)
  then have "horaSolicitada (solicitud ''C'' 20 4) < 7 \<or> horaSolicitada (solicitud ''C'' 20 4) > 19 \<or>
      numPersonas (solicitud ''C'' 20 4) > aforoMaximo parque"
    by simp
  from C6_fail_fast_denial [OF this] h show ?thesis
    by (simp add: parque_def inicializarServidor_def)
qed

text \<open>
  Claim C7.  Whenever the answer to a request is a denial, the new state is the old
  one with the counter of denied requests incremented: the occupancy counters and the
  reservation store are unchanged, and so are the two other statistics counters.
\<close>

theorem C7_denial_atomic:
  assumes "procesarSolicitudReserva msg s = Inr (resp, s')"
    and "tipo_resp resp = RESP_RESERVA_NEGADA"
  shows "s' = s\<lparr> solicitudesNegadas := solicitudesNegadas s + 1 \<rparr> \<and>
         ocupacionPorHora s' = ocupacionPorHora s \<and> reservas s' = reservas s \<and>
         solicitudesNegadas s' = solicitudesNegadas s + 1 \<and>
         solicitudesAceptadas s' = solicitudesAceptadas s \<and>
         solicitudesReprogramadas s' = solicitudesReprogramadas s"
proof -
  have r: "reprogramar msg s = Inr (resp, s') \<Longrightarrow> (resp, s') = negada s"
    using assms(2)
    by (auto simp: reprogramar_def split: option.splits sum.splits)
  have "(resp, s') = negada s"
    using assms r
    by (auto simp: procesarSolicitudReserva_def split: if_splits option.splits bool.splits sum.splits)
  then show ?thesis by (simp add: negada_def)
qed

text \<open>A party of 150 in the park of capacity 100: denied, nothing stored, nothing charged.\<close>

theorem C7_denial_atomic_witness:
  "procesarSolicitudReserva (solicitud ''D'' 10 150) parque =
     Inr (\<lparr> tipo_resp = RESP_RESERVA_NEGADA, horaAsignada = None, horaActual_resp = 7 \<rparr>,
          parque\<lparr> solicitudesNegadas := 1 \<rparr>) \<and>
   ocupacionPorHora (parque\<lparr> solicitudesNegadas := 1 \<rparr>) = replicate 13 0 \<and>
   reservas (parque\<lparr> solicitudesNegadas := 1 \<rparr>) = []"
proof -
  have p: "procesarSolicitudReserva (solicitud ''D'' 10 150) parque =
     Inr (\<lparr> tipo_resp = RESP_RESERVA_NEGADA, horaAsignada = None, horaActual_resp = 7 \<rparr>,
          parque\<lparr> solicitudesNegadas := 1 \<rparr>)"
    by (simp add: procesarSolicitudReserva_def solicitud_def parque_def inicializarServidor_def
        negada_def validarHora_def HORAS_MIN_def HORAS_MAX_def)
  from C7_denial_atomic [OF p] p show ?thesis
    by (simp add: parque_def inicializarServidor_def MAX_HORAS_def HORAS_MIN_def HORAS_MAX_def)
qed

subsection \<open>Invariants of a run\<close>



text \<open>
  Claim C8 says that no counter ever decreases.  The party size is a C \<open>int\<close> that
  the agent reads with \<open>atoi\<close> and that the controller compares with the maximum
  capacity only: a request for minus five persons is approved and lowers the counters of
  its window.  And in the park of capacity two thousand million a second party of that
  size for hour 10 is approved because the sum wraps, and the counter of hour 10 falls
  from 2000000000 to -294967296.
\<close>

theorem C8_counters_monotone_counterexample:
  "contador parque 10 = 0 \<and>
   map_sum id (\<lambda>s'. contador s' 10) (paso (Mensaje (solicitud ''N'' 10 (- 5))) parque) =
     Inr (- 5) \<and>
   map_sum id (\<lambda>s'. contador s' 10)
     (ejecutar [Mensaje (solicitud ''P'' 10 2000000000)] parque_grande) = Inr 2000000000 \<and>
   map_sum id (\<lambda>s'. contador s' 10)
     (ejecutar [Mensaje (solicitud ''P'' 10 2000000000),
                Mensaje (solicitud ''Q'' 10 2000000000)] parque_grande) = Inr (- 294967296)"
  by code_simp

text \<open>
  Claim C8 as amended.  In a state whose counters are C values at most the maximum
  capacity, with a maximum capacity below \<open>2 ^ 30\<close>, so that no sum of a counter and an
  admitted party size can wrap: over any sequence of clock ticks and messages that the
  store can hold and in which no reservation request has a negative party size, the
  counter of every hour from 7 to 19 at the end is at least its value at the start.  The
  initial state of a server with such a capacity is such a state, and so is every state
  that such a sequence reaches from it.
\<close>

theorem C8_counters_monotone_amended:
  assumes "length (ocupacionPorHora s) = MAX_HORAS"
    and "\<forall>h. validarHora h \<longrightarrow> - (2 ^ 31) \<le> contador s h \<and> contador s h \<le> aforoMaximo s"
    and "2 * aforoMaximo s < 2 ^ 31"
    and "list_all sinPersonasNegativas evs"
  shows "(length (reservas s) + length evs \<le> MAX_RESERVAS \<longrightarrow> (\<exists>s'. ejecutar evs s = Inr s')) \<and>
         (\<forall>s'. ejecutar evs s = Inr s' \<longrightarrow>
            (\<forall>h. validarHora h \<longrightarrow>
               contador s h \<le> contador s' h \<and>
               - (2 ^ 31) \<le> contador s' h \<and> contador s' h \<le> aforoMaximo s'))"
proof -
  have total: "length (reservas s) + length evs \<le> MAX_RESERVAS \<longrightarrow> (\<exists>s'. ejecutar evs s = Inr s')"
    using ejecutar_total [OF assms(1)] by blast
  have "\<forall>h. validarHora h \<longrightarrow>
               contador s h \<le> contador s' h \<and>
               - (2 ^ 31) \<le> contador s' h \<and> contador s' h \<le> aforoMaximo s'"
    if "ejecutar evs s = Inr s'" for s'
    using assms that
  proof (induction evs arbitrary: s)
    case Nil
    then show ?case by simp
  next
    case (Cons e evs)
    from Cons.prems(5) obtain s1 where p: "paso e s = Inr s1" and e: "ejecutar evs s1 = Inr s'"
      by (auto split: sum.splits)
    from Cons.prems(4) have nn: "sinPersonasNegativas e" and resto: "list_all sinPersonasNegativas evs"
      by simp_all
    note l1 = paso_longitudes(1,2) [OF Cons.prems(1) p]
    have inf: "\<forall>h. validarHora h \<longrightarrow> - (2 ^ 31) \<le> contador s h"
      and sup: "\<forall>h. validarHora h \<longrightarrow> contador s h \<le> aforoMaximo s"
      using Cons.prems(2) by simp_all
    have m: "\<forall>h. validarHora h \<longrightarrow> contador s h \<le> contador s1 h"
      using paso_monotono [OF Cons.prems(1,2,3) nn p] .
    have r1: "\<forall>h. validarHora h \<longrightarrow> - (2 ^ 31) \<le> contador s1 h \<and> contador s1 h \<le> aforoMaximo s1"
      using paso_rango [OF Cons.prems(1) inf p] paso_sin_sobrecupo [OF Cons.prems(1) sup p]
      by simp
    have a1: "2 * aforoMaximo s1 < 2 ^ 31"
      using Cons.prems(3) l1(2) by simp
    from Cons.IH [OF l1(1) r1 a1 resto e]
    have "\<forall>h. validarHora h \<longrightarrow>
               contador s1 h \<le> contador s' h \<and>
               - (2 ^ 31) \<le> contador s' h \<and> contador s' h \<le> aforoMaximo s'" .
    with m show ?case by (meson order_trans)
  qed
  with total show ?thesis by blast
qed

text \<open>Over the run of the families A and B the counter of hour 12 goes from 0 to 60.\<close>

theorem C8_counters_monotone_amended_witness:
  "length (ocupacionPorHora parque) = MAX_HORAS \<and>
   2 * aforoMaximo parque < 2 ^ 31 \<and>
   list_all sinPersonasNegativas corrida_AB \<and>
   map_sum id (\<lambda>s'. contador s' 12) (ejecutar corrida_AB parque) = Inr 60 \<and>
   (\<exists>s'. ejecutar corrida_AB parque = Inr s' \<and> contador parque 12 \<le> contador s' 12)"
proof -
  have len: "length (ocupacionPorHora parque) = MAX_HORAS"
    by (simp add: ejemplo_defs consts_defs)
  have r: "\<forall>h. validarHora h \<longrightarrow> - (2 ^ 31) \<le> contador parque h \<and> contador parque h \<le> aforoMaximo parque"
    by (simp add: parque_def inicializarServidor_vacio)
  have a: "2 * aforoMaximo parque < 2 ^ 31"
    by (simp add: ejemplo_defs)
  have nn: "list_all sinPersonasNegativas corrida_AB"
    by (simp add: corrida_AB_def sinPersonasNegativas_def solicitud_def)
  have l: "length (reservas parque) + length corrida_AB \<le> MAX_RESERVAS"
    by (simp add: ejemplo_defs corrida_AB_def MAX_RESERVAS_def)
  have v: "validarHora 12"
    by (simp add: validarHora_def consts_defs)
  have e: "map_sum id (\<lambda>s'. contador s' 12) (ejecutar corrida_AB parque) = Inr 60"
    by code_simp
  from C8_counters_monotone_amended [OF len r a nn] l v
  have "\<exists>s'. ejecutar corrida_AB parque = Inr s' \<and> contador parque 12 \<le> contador s' 12"
    by blast
  with len a nn e show ?thesis by blast
qed

subsection \<open>The clock tick\<close>

text \<open>
  Claim C9.  In every state that a run reaches from the initial state without writing
  past the end of the store (so the store holds at most 1000 records, each as the engine
  wrote it), one call of \<open>avanzarHora\<close> increments the current hour by one; a stored
  record is active afterwards when its start hour is the new hour, inactive when its end
  hour is before the new hour, and keeps its flag otherwise; no other field of a record
  changes, the store keeps its length and its order, and the occupancy counters and
  every other part of the state are unchanged.
\<close>

theorem C9_tick_frame:
  assumes "ejecutar evs (inicializarServidor hi hf aforo) = Inr s"
  shows "length (reservas s) \<le> MAX_RESERVAS \<and>
         horaActual (avanzarHora s) = horaActual s + 1 \<and>
         length (reservas (avanzarHora s)) = length (reservas s) \<and>
         (\<forall>i < length (reservas s).
            (horaInicio (reservas s ! i) = horaActual s + 1 \<longrightarrow>
               activa (reservas (avanzarHora s) ! i)) \<and>
            (horaFin (reservas s ! i) < horaActual s + 1 \<longrightarrow>
               \<not> activa (reservas (avanzarHora s) ! i)) \<and>
            (horaInicio (reservas s ! i) \<noteq> horaActual s + 1 \<and>
             \<not> horaFin (reservas s ! i) < horaActual s + 1 \<longrightarrow>
               activa (reservas (avanzarHora s) ! i) = activa (reservas s ! i)) \<and>
            (reservas (avanzarHora s) ! i)\<lparr> activa := activa (reservas s ! i) \<rparr> =
               reservas s ! i) \<and>
         ocupacionPorHora (avanzarHora s) = ocupacionPorHora s \<and>
         avanzarHora s =
           s\<lparr> horaActual := horaActual s + 1, reservas := reservas (avanzarHora s) \<rparr>"
proof -
  note ini = inicializarServidor_vacio [of hi hf aforo]
  have "list_all bienFormada (reservas (inicializarServidor hi hf aforo))"
    by (simp add: ini(3))
  from ejecutar_bienFormadas [OF this assms]
  have wf: "list_all bienFormada (reservas s)" .
  have cota: "length (reservas s) \<le> MAX_RESERVAS"
    using ejecutar_longitudes [OF ini(1) assms] by (simp add: ini(3))
  have r: "reservas (avanzarHora s) =
      map (\<lambda>r. desactivar (horaActual s + 1) (activar (horaActual s + 1) r)) (reservas s)"
    by (simp add: avanzarHora_def Let_def)
  have "bienFormada (reservas s ! i)" if "i < length (reservas s)" for i
    using wf that by (simp add: list_all_length)
  then show ?thesis
    unfolding r using avanzarHora_activa cota
    by (simp add: avanzarHora_def Let_def)
qed

text \<open>
  Family A's reservation for hour 10, stored at hour 7, becomes active at the tick from
  hour 9 to hour 10.
\<close>

theorem C9_tick_frame_witness:
  "ejecutar [Mensaje (solicitud ''A'' 10 50), Tic, Tic] (inicializarServidor 7 19 100) =
     Inr parque_hora9 \<and>
   horaActual (avanzarHora parque_hora9) = 10 \<and>
   map activa (reservas parque_hora9) = [False] \<and>
   map activa (reservas (avanzarHora parque_hora9)) = [True] \<and>
   ocupacionPorHora (avanzarHora parque_hora9) = ocupacionPorHora parque_hora9"
proof -
  have e: "ejecutar [Mensaje (solicitud ''A'' 10 50), Tic, Tic] (inicializarServidor 7 19 100) =
     Inr parque_hora9"
    by code_simp
  have a: "horaActual parque_hora9 = 9" "length (reservas parque_hora9) = 1"
      "horaInicio (reservas parque_hora9 ! 0) = 10"
      "map activa (reservas parque_hora9) = [False]"
    by (simp_all add: parque_hora9_def nuevaReserva_def solicitud_def)
  from C9_tick_frame [OF e] a
  have "horaActual (avanzarHora parque_hora9) = 10"
    and "activa (reservas (avanzarHora parque_hora9) ! 0)"
    and "length (reservas (avanzarHora parque_hora9)) = 1"
    and "ocupacionPorHora (avanzarHora parque_hora9) = ocupacionPorHora parque_hora9"
    by simp_all
  moreover from this have "map activa (reservas (avanzarHora parque_hora9)) = [True]"
    by (cases "reservas (avanzarHora parque_hora9)") simp_all
  ultimately show ?thesis using e a by simp
qed

subsection \<open>Occupancy indexing\<close>

text \<open>
  Claim C10.  A commit at any start hour stays within the occupancy array: its loop adds
  the party size, as a 32-bit sum, to the counter of each hour of the window that is
  within 7 and 19, leaves every other counter alone, and keeps the thirteen cells; the
  commit as a whole never fails on the occupancy array, and succeeds with that effect
  whenever the store has room for its record.  The availability check and the handling
  of a whole request never read or write outside the array either, and the handling
  returns an answer whenever the store has room.  At start hour 19 only hour 19 is
  checked and only cell 12 is charged.
\<close>

theorem C10_commit_within_bounds:
  assumes len: "length (ocupacionPorHora s) = MAX_HORAS"
  shows "(\<exists>occ'. actualizarOcupacion (ocupacionPorHora s) hora (numPersonas msg) = Some occ' \<and>
            length occ' = MAX_HORAS \<and>
            (\<forall>h. validarHora h \<longrightarrow>
               occ' ! nat (indiceHora h) =
                 (if validarHora hora \<and> hora \<le> h \<and> h < hora + DURACION_RESERVA
                  then int32 (contador s h + numPersonas msg) else contador s h))) \<and>
         realizarReserva msg hora s \<noteq> Inl OcupacionFueraDeRango \<and>
         (length (reservas s) < MAX_RESERVAS \<longrightarrow>
            (\<exists>s'. realizarReserva msg hora s = Inr s' \<and>
               length (ocupacionPorHora s') = MAX_HORAS \<and>
               (\<forall>h. validarHora h \<longrightarrow>
                  contador s' h =
                    (if validarHora hora \<and> hora \<le> h \<and> h < hora + DURACION_RESERVA
                     then int32 (contador s h + numPersonas msg) else contador s h)))) \<and>
         verificarDisponibilidad s hora n \<noteq> None \<and>
         procesarSolicitudReserva msg s \<noteq> Inl OcupacionFueraDeRango \<and>
         (length (reservas s) < MAX_RESERVAS \<longrightarrow>
            (\<exists>r s'. procesarSolicitudReserva msg s = Inr (r, s'))) \<and>
         verificarDisponibilidad s 19 n = Some (int32 (contador s 19 + n) \<le> aforoMaximo s) \<and>
         actualizarOcupacion (ocupacionPorHora s) 19 n =
           Some ((ocupacionPorHora s)[12 := int32 (ocupacionPorHora s ! 12 + n)])"
proof -
  let ?occ = "ocupacionPorHora s"
  have lazo: "\<exists>occ'. actualizarOcupacion ?occ hora (numPersonas msg) = Some occ' \<and>
            length occ' = MAX_HORAS \<and>
            (\<forall>h. validarHora h \<longrightarrow>
               occ' ! nat (indiceHora h) =
                 (if validarHora hora \<and> hora \<le> h \<and> h < hora + DURACION_RESERVA
                  then int32 (contador s h + numPersonas msg) else contador s h))"
  proof (cases "validarHora hora")
    case True
    from actualizarOcupacion_efecto [OF len True, of "numPersonas msg"]
    obtain occ' where "actualizarOcupacion ?occ hora (numPersonas msg) = Some occ'"
      and "length occ' = MAX_HORAS"
      and "\<And>h. validarHora h \<Longrightarrow>
           occ' ! nat (indiceHora h) =
             (if hora \<le> h \<and> h < hora + DURACION_RESERVA
              then int32 (?occ ! nat (indiceHora h) + numPersonas msg)
              else ?occ ! nat (indiceHora h))"
      by blast
    with True show ?thesis by (simp add: contador_def)
  next
    case False
    then have "actualizarOcupacion ?occ hora (numPersonas msg) = Some ?occ"
      using len by (simp add: actualizarOcupacion_eq)
    with False len show ?thesis
      by (simp add: contador_def)
  qed
  have commit: "\<exists>s'. realizarReserva msg hora s = Inr s' \<and>
               length (ocupacionPorHora s') = MAX_HORAS \<and>
               (\<forall>h. validarHora h \<longrightarrow>
                  contador s' h =
                    (if validarHora hora \<and> hora \<le> h \<and> h < hora + DURACION_RESERVA
                     then int32 (contador s h + numPersonas msg) else contador s h))"
    if cabe: "length (reservas s) < MAX_RESERVAS"
  proof -
    from lazo obtain occ' where a: "actualizarOcupacion ?occ hora (numPersonas msg) = Some occ'"
      and l: "length occ' = MAX_HORAS"
      and c: "\<forall>h. validarHora h \<longrightarrow>
               occ' ! nat (indiceHora h) =
                 (if validarHora hora \<and> hora \<le> h \<and> h < hora + DURACION_RESERVA
                  then int32 (contador s h + numPersonas msg) else contador s h)"
      by blast
    let ?s' = "s\<lparr> reservas := reservas s @ [nuevaReserva msg hora], ocupacionPorHora := occ' \<rparr>"
    have "realizarReserva msg hora s = Inr ?s'"
      using a cabe by (simp add: realizarReserva_def)
    moreover have "length (ocupacionPorHora ?s') = MAX_HORAS" using l by simp
    moreover have "\<forall>h. validarHora h \<longrightarrow>
                  contador ?s' h =
                    (if validarHora hora \<and> hora \<le> h \<and> h < hora + DURACION_RESERVA
                     then int32 (contador s h + numPersonas msg) else contador s h)"
      using c by (simp add: contador_def)
    ultimately show ?thesis by blast
  qed
  have v: "validarHora 19" "\<not> validarHora (19 + 1)"
    by (simp_all add: validarHora_def HORAS_MIN_def HORAS_MAX_def)
  have ver: "verificarDisponibilidad s hora n \<noteq> None"
    using len by (simp add: verificarDisponibilidad_eq)
  have pro: "procesarSolicitudReserva msg s \<noteq> Inl OcupacionFueraDeRango"
    using len by (rule procesarSolicitudReserva_sin_fuera)
  have tot: "length (reservas s) < MAX_RESERVAS \<longrightarrow>
            (\<exists>r s'. procesarSolicitudReserva msg s = Inr (r, s'))"
    using procesarSolicitudReserva_total [OF len] by blast
  have v19: "verificarDisponibilidad s 19 n = Some (int32 (contador s 19 + n) \<le> aforoMaximo s)"
    using len v by (simp add: verificarDisponibilidad_eq)
  have a19: "actualizarOcupacion ?occ 19 n = Some (?occ[12 := int32 (?occ ! 12 + n)])"
    using len v by (simp add: actualizarOcupacion_eq indiceHora_def HORAS_MIN_def)
  from lazo realizarReserva_sin_fuera [OF len, of msg hora] commit ver pro tot v19 a19
  show ?thesis by blast
qed

text \<open>In the empty park at hour 19, 30 persons for hour 19 are charged to the last cell only.\<close>

theorem C10_commit_within_bounds_witness:
  "length (ocupacionPorHora parque_cierre) = MAX_HORAS \<and>
   map_sum id ocupacionPorHora (realizarReserva (solicitud ''H'' 19 30) 19 parque_cierre) =
     Inr [0, 0, 0, 0, 0, 0, 0, 0, 0, 0, 0, 0, 30] \<and>
   verificarDisponibilidad parque_cierre 19 30 = Some True \<and>
   actualizarOcupacion (ocupacionPorHora parque_cierre) 19 30 =
     Some [0, 0, 0, 0, 0, 0, 0, 0, 0, 0, 0, 0, 30]"
proof -
  have len: "length (ocupacionPorHora parque_cierre) = MAX_HORAS"
    by (simp add: ejemplo_defs consts_defs)
  have o: "ocupacionPorHora parque_cierre = [0, 0, 0, 0, 0, 0, 0, 0, 0, 0, 0, 0, 0]"
    by (simp add: ejemplo_defs consts_defs eval_nat_numeral)
  have c: "contador parque_cierre 19 = 0" "aforoMaximo parque_cierre = 100"
      "reservas parque_cierre = []"
    by (simp_all add: contador_def indiceHora_def ejemplo_defs consts_defs)
  have w: "int32 30 = 30" by (simp add: int32_def)
  from C10_commit_within_bounds [OF len, of 19 "solicitud ''H'' 19 30" 30]
  have "verificarDisponibilidad parque_cierre 19 30 = Some True"
    and a: "actualizarOcupacion (ocupacionPorHora parque_cierre) 19 30 =
      Some [0, 0, 0, 0, 0, 0, 0, 0, 0, 0, 0, 0, 30]"
    by (simp_all add: c o w)
  moreover from a
  have "map_sum id ocupacionPorHora (realizarReserva (solicitud ''H'' 19 30) 19 parque_cierre) =
     Inr [0, 0, 0, 0, 0, 0, 0, 0, 0, 0, 0, 0, 30]"
    by (simp add: realizarReserva_def solicitud_def c MAX_RESERVAS_def)
  ultimately show ?thesis using len by simp
qed

end
